theory Spec2Isabelle
  imports Complex_Main
begin

section \<open>Data model of \<open>ContactMapTask\<close>\<close>

text \<open>
  Tensors are nested lists in row-major order: a tensor of shape \<open>B \<times> L\<close> is a list of
  \<open>B\<close> rows of length \<open>L\<close>. Floating-point tensors carry real numbers: rounding,
  infinities and NaN are not part of the model. Everything the Python raises is a value
  \<open>Inl e\<close>.
\<close>

datatype error =
    FileNotFoundError string
  | InvalidArgument
  | ValueError
  | IndexError
  | OverflowError

record ContactMapTask =
  key_metric :: string
  label_name :: string
  input_name :: string
  output_name :: string
  min_residue_distance :: int

text \<open>
  The batch dictionary \<open>inputs\<close> with the keys that the task reads, and the model
  output \<open>outputs\<close>, whose \<open>contact_prob\<close> entry is a \<open>B \<times> L \<times> L \<times> 1\<close> tensor
  of logits.
\<close>

record inputs =
  primary :: "int list list"
  protein_length :: "int list"
  valid_mask :: "bool list list"
  contact_map :: "int list list list"

record outputs =
  contact_prob :: "real list list list list"

text \<open>
  \<open>__init__(self, min_residue_distance: int = 6)\<close>: the argument is optional and
  \<open>None\<close> stands for a call that omits it.
\<close>

definition init :: "int option \<Rightarrow> ContactMapTask" where
  "init d =
     \<lparr> key_metric = ''ACC'',
       label_name = ''contact_map'',
       input_name = ''encoder_output'',
       output_name = ''contact_prob'',
       min_residue_distance = (case d of None \<Rightarrow> 6 | Some v \<Rightarrow> v) \<rparr>"

section \<open>\<open>get_mask\<close>\<close>

text \<open>\<open>get_shape(t, 1)\<close>: the width of a tensor of rank two or more, read off its first row.\<close>

definition dim1 :: "'a list list \<Rightarrow> nat" where
  "dim1 t = (case t of [] \<Rightarrow> 0 | r # _ \<Rightarrow> length r)"

text \<open>\<open>v[:, None] & v[None, :]\<close> for one example.\<close>

definition outer_and :: "bool list \<Rightarrow> bool list list" where
  "outer_and v = map (\<lambda>a. map (\<lambda>b. a \<and> b) v) v"

text \<open>
  \<open>tf.abs(indices[None, :] - indices[:, None])\<close>: row \<open>i\<close>, column \<open>j\<close> holds
  \<open>|j - i|\<close>.
\<close>

definition distance :: "nat \<Rightarrow> int list list" where
  "distance n = map (\<lambda>i. map (\<lambda>j. \<bar>int j - int i\<bar>) [0..<n]) [0..<n]"

definition nearby_contact_mask :: "nat \<Rightarrow> int \<Rightarrow> bool list list" where
  "nearby_contact_mask n d = map (map (\<lambda>x. d \<le> x)) (distance n)"

definition in_int32 :: "int \<Rightarrow> bool" where
  "in_int32 x \<longleftrightarrow> - 2147483648 \<le> x \<and> x \<le> 2147483647"

text \<open>
  \<open>valid_mask & nearby_contact_mask[None]\<close> combines a \<open>B \<times> V \<times> V\<close> tensor with a
  \<open>1 \<times> L \<times> L\<close> tensor. Broadcasting stretches the leading \<open>1\<close> over the batch, and a
  trailing pair of axes of size one over the other operand; any other disagreement of
  \<open>V\<close> and \<open>L\<close> is an error. The distance threshold is the Python integer
  \<open>self._min_residue_distance\<close>, which has to convert to the \<open>int32\<close> type of
  \<open>distance\<close>.
\<close>

definition get_mask :: "ContactMapTask \<Rightarrow> inputs \<Rightarrow> error + bool list list list" where
  "get_mask self inp =
     (let valid = map outer_and (valid_mask inp);
          v = dim1 (valid_mask inp);
          sequence_length = dim1 (primary inp);
          d = min_residue_distance self
      in if \<not> in_int32 d then Inl ValueError
         else let nearby = nearby_contact_mask sequence_length d
         in if v = sequence_length then
              Inr (map (\<lambda>m. map2 (map2 (\<and>)) m nearby) valid)
            else if v = 1 then
              Inr (map (\<lambda>m. map (map (\<lambda>y. m ! 0 ! 0 \<and> y)) nearby) valid)
            else if sequence_length = 1 then
              Inr (map (map (map (\<lambda>x. x \<and> nearby ! 0 ! 0))) valid)
            else Inl InvalidArgument)"

section \<open>Tensor primitives used by \<open>loss_function\<close>\<close>

text \<open>\<open>tf.squeeze(t, 3)\<close> drops the last axis, which has to be of size one.\<close>

definition squeeze3 :: "'a list list list list \<Rightarrow> error + 'a list list list" where
  "squeeze3 t =
     (if list_all (list_all (list_all (\<lambda>c. length c = 1))) t
      then Inr (map (map (map hd)) t) else Inl InvalidArgument)"

text \<open>
  \<open>tf.reshape(t, (b, n))\<close> of a tensor of rank three: the entries in row-major order,
  cut into \<open>b\<close> rows of \<open>n\<close>; the number of entries has to be \<open>b * n\<close>.
\<close>

fun chunk :: "nat \<Rightarrow> nat \<Rightarrow> 'a list \<Rightarrow> 'a list list" where
  "chunk 0 n xs = []"
| "chunk (Suc b) n xs = take n xs # chunk b n (drop n xs)"

definition reshape2 :: "'a list list list \<Rightarrow> nat \<Rightarrow> nat \<Rightarrow> error + 'a list list" where
  "reshape2 t b n =
     (let flat = concat (concat t)
      in if length flat = b * n then Inr (chunk b n flat) else Inl InvalidArgument)"

definition reduce_sum :: "real list list \<Rightarrow> real" where
  "reduce_sum t = sum_list (map sum_list t)"

text \<open>
  \<open>tf.reduce_max\<close> of a vector of integers; of the empty vector it is the least value
  of the integer type.
\<close>

definition reduce_max :: "int list \<Rightarrow> int" where
  "reduce_max xs = (case xs of [] \<Rightarrow> - 2147483648 | x # ys \<Rightarrow> fold max ys x)"

text \<open>
  \<open>tf.losses.sigmoid_cross_entropy(labels, logits, weights)\<close> with its default
  reduction: the element-wise loss \<open>max(x, 0) - x * z + log(1 + exp(-|x|))\<close> of logit
  \<open>x\<close> and label \<open>z\<close> (the labels cast to the type of the logits), times the weight,
  summed, and divided by the number of non-zero weights; the quotient is \<open>0\<close> when no
  weight is non-zero.
\<close>

definition sigmoid_cross_entropy_with_logits :: "real \<Rightarrow> real \<Rightarrow> real" where
  "sigmoid_cross_entropy_with_logits z x = max x 0 - x * z + ln (1 + exp (- \<bar>x\<bar>))"

definition weighted_losses :: "int list list \<Rightarrow> real list list \<Rightarrow> real list list \<Rightarrow> real list list" where
  "weighted_losses labels logits weights =
     map2 (\<lambda>(zs, xs) ws.
             map2 (\<lambda>(z, x) w. sigmoid_cross_entropy_with_logits (of_int z) x * w)
               (zip zs xs) ws)
       (zip labels logits) weights"

definition num_present :: "real list list \<Rightarrow> nat" where
  "num_present weights = length (filter (\<lambda>w. w \<noteq> 0) (concat weights))"

definition sigmoid_cross_entropy :: "int list list \<Rightarrow> real list list \<Rightarrow> real list list \<Rightarrow> real" where
  "sigmoid_cross_entropy labels logits weights =
     (let total = reduce_sum (weighted_losses labels logits weights);
          n = num_present weights
      in if n = 0 then 0 else total / real n)"

text \<open>
  \<open>tf.nn.top_k(t, k)\<close>: for each row the \<open>k\<close> largest entries in descending order and
  their positions; of two equal entries the one at the lower position comes first.
  \<open>k\<close> must not be negative and a row must have at least \<open>k\<close> entries.
\<close>

definition top_k_row :: "real list \<Rightarrow> nat \<Rightarrow> nat list" where
  "top_k_row row k = take k (sort_key (\<lambda>i. - (row ! i)) [0..<length row])"

definition top_k :: "real list list \<Rightarrow> int \<Rightarrow> error + (real list list \<times> nat list list)" where
  "top_k t k =
     (if k < 0 \<or> \<not> list_all (\<lambda>row. k \<le> int (length row)) t then Inl InvalidArgument
      else let indices = map (\<lambda>row. top_k_row row (nat k)) t
           in Inr (map2 (\<lambda>row ix. map (\<lambda>i. row ! i) ix) t indices, indices))"

text \<open>\<open>tf.meshgrid(tf.range(b), tf.range(k), indexing='ij')\<close>.\<close>

definition meshgrid_ij :: "nat \<Rightarrow> int \<Rightarrow> nat list list \<times> nat list list" where
  "meshgrid_ij b k =
     (map (\<lambda>r. replicate (nat k) r) [0..<b], map (\<lambda>r. [0..<nat k]) [0..<b])"

text \<open>\<open>tf.stack([s, t], -1)\<close> of two tensors of the same shape.\<close>

definition stack_last :: "nat list list \<Rightarrow> nat list list \<Rightarrow> error + (nat \<times> nat) list list" where
  "stack_last s t =
     (if map length s = map length t then Inr (map2 zip s t) else Inl InvalidArgument)"

text \<open>\<open>tf.gather_nd(t, ix)\<close>: the entry of \<open>t\<close> at each index pair; a pair outside
  \<open>t\<close> is an error.\<close>

definition gather_nd :: "'a list list \<Rightarrow> (nat \<times> nat) list list \<Rightarrow> error + 'a list list" where
  "gather_nd t ix =
     (if list_all (list_all (\<lambda>(r, c). r < length t \<and> c < length (t ! r))) ix
      then Inr (map (map (\<lambda>(r, c). t ! r ! c)) ix) else Inl InvalidArgument)"

section \<open>\<open>loss_function\<close>\<close>

text \<open>
  The first part of \<open>loss_function\<close>: the mask of \<open>get_mask\<close>, the labels and the
  squeezed predictions, each reshaped to \<open>batch_size \<times> (seqlen * seqlen)\<close>, the mask
  cast to the type of the predictions.
\<close>

definition flat_tensors ::
  "ContactMapTask \<Rightarrow> inputs \<Rightarrow> outputs \<Rightarrow> error + (real list list \<times> int list list \<times> real list list)" where
  "flat_tensors self inp out =
     (case get_mask self inp of
        Inl e \<Rightarrow> Inl e
      | Inr mask' \<Rightarrow>
         (let label = contact_map inp in
          case squeeze3 (contact_prob out) of
            Inl e \<Rightarrow> Inl e
          | Inr pred \<Rightarrow>
             (let batch_size = length label; seqlen = dim1 label in
              case reshape2 mask' batch_size (seqlen * seqlen) of
                Inl e \<Rightarrow> Inl e
              | Inr mask' \<Rightarrow>
                 (case reshape2 label batch_size (seqlen * seqlen) of
                    Inl e \<Rightarrow> Inl e
                  | Inr label \<Rightarrow>
                     (case reshape2 pred batch_size (seqlen * seqlen) of
                        Inl e \<Rightarrow> Inl e
                      | Inr pred \<Rightarrow> Inr (map (map of_bool) mask', label, pred))))))"

text \<open>The scores handed to \<open>top_k\<close>: \<open>pred - (1000 * (1 - mask))\<close>.\<close>

definition penalised :: "real list list \<Rightarrow> real list list \<Rightarrow> real list list" where
  "penalised pred mask' = map2 (map2 (\<lambda>p m. p - 1000 * (1 - m))) pred mask'"

text \<open>The number of pairs asked of \<open>top_k\<close>: \<open>max_prot_len // 5\<close>.\<close>

definition l_over_5 :: "inputs \<Rightarrow> int" where
  "l_over_5 inp = reduce_max (protein_length inp) div 5"

text \<open>
  The second part: the positions chosen by \<open>top_k\<close>, and the labels and mask weights
  gathered there, \<open>(indices, l5_labels, l5_mask)\<close>, the labels cast to the type of the
  mask.
\<close>

definition top_l_over_5 ::
  "inputs \<Rightarrow> real list list \<Rightarrow> int list list \<Rightarrow> real list list \<Rightarrow>
     error + (nat list list \<times> real list list \<times> real list list)" where
  "top_l_over_5 inp mask' label pred =
     (case top_k (penalised pred mask') (l_over_5 inp) of
        Inl e \<Rightarrow> Inl e
      | Inr (values, indices) \<Rightarrow>
         (let (ii, _) = meshgrid_ij (length label) (l_over_5 inp) in
          case stack_last ii indices of
            Inl e \<Rightarrow> Inl e
          | Inr ix \<Rightarrow>
             (case gather_nd label ix of
                Inl e \<Rightarrow> Inl e
              | Inr l5_labels \<Rightarrow>
                 (case gather_nd mask' ix of
                    Inl e \<Rightarrow> Inl e
                  | Inr l5_mask \<Rightarrow> Inr (indices, map (map of_int) l5_labels, l5_mask)))))"

definition accuracy :: "real list list \<Rightarrow> real list list \<Rightarrow> real" where
  "accuracy l5_labels l5_mask =
     reduce_sum (map2 (map2 (*)) l5_labels l5_mask) / (reduce_sum l5_mask + 1 / 10 ^ 8)"

definition loss_function ::
  "ContactMapTask \<Rightarrow> inputs \<Rightarrow> outputs \<Rightarrow> error + (real \<times> (string \<rightharpoonup> real))" where
  "loss_function self inp out =
     (case flat_tensors self inp out of
        Inl e \<Rightarrow> Inl e
      | Inr (mask', label, pred) \<Rightarrow>
         (let loss = sigmoid_cross_entropy label pred mask' in
          case top_l_over_5 inp mask' label pred of
            Inl e \<Rightarrow> Inl e
          | Inr (indices, l5_labels, l5_mask) \<Rightarrow>
              Inr (loss, Map.empty(key_metric self \<mapsto> accuracy l5_labels l5_mask))))"

section \<open>\<open>get_data\<close>: the bucket boundaries handed to the base class\<close>

text \<open>
  \<open>a[:-1][m] = 0\<close>: assignment through a boolean mask, which has to be as long as the
  array it indexes.
\<close>

definition mask_assign :: "int list \<Rightarrow> bool list \<Rightarrow> int \<Rightarrow> error + int list" where
  "mask_assign a m v =
     (if length m = length a then Inr (map2 (\<lambda>x c. if c then v else x) a m)
      else Inl IndexError)"

text \<open>
  The pair \<open>(bounds_array, batch_sizes_array)\<close> that \<open>get_data\<close> passes to
  \<open>super().get_data\<close>. The batch sizes are counts, hence natural numbers; the bounds
  have to fit \<open>int32\<close>.
\<close>

definition get_data :: "int list \<times> nat list \<Rightarrow> error + (int list \<times> int list)" where
  "get_data boundaries =
     (let (bounds, batch_sizes) = boundaries in
      if \<not> list_all in_int32 bounds then Inl OverflowError
      else
      let bounds_array = bounds;
          batch_sizes_array = map (\<lambda>n. \<lfloor>sqrt (real n) / 4\<rfloor>) batch_sizes;
          batch_sizes_array = map (\<lambda>x. if x \<le> 0 then 1 else x) batch_sizes_array
      in case mask_assign (butlast batch_sizes_array) (map (\<lambda>b. 1000 < b) bounds_array) 0 of
           Inl e \<Rightarrow> Inl e
         | Inr front \<Rightarrow>
             if batch_sizes_array = [] then Inl IndexError
             else Inr (bounds_array, front @ [0]))"

section \<open>File discovery\<close>

text \<open>
  The file system is seen through \<open>glob\<close> and \<open>os.path.exists\<close> only; both are
  parameters. \<open>os.path.join\<close> is the POSIX one.
\<close>

record filesystem =
  glob :: "string \<Rightarrow> string list"
  path_exists :: "string \<Rightarrow> bool"

definition join2 :: "string \<Rightarrow> string \<Rightarrow> string" where
  "join2 a b =
     (if b \<noteq> [] \<and> hd b = CHR ''/'' then b
      else if a = [] \<or> last a = CHR ''/'' then a @ b
      else a @ ''/'' @ b)"

definition os_path_join :: "string \<Rightarrow> string list \<Rightarrow> string" where
  "os_path_join a ps = fold (\<lambda>p acc. join2 acc p) ps a"

definition get_train_files :: "filesystem \<Rightarrow> string \<Rightarrow> error + string list" where
  "get_train_files fs data_folder =
     (let train_file_pattern =
            os_path_join data_folder [''proteinnet'', ''contact_map_train*.tfrecord''];
          train_files = glob fs train_file_pattern
      in if length train_files = 0 then Inl (FileNotFoundError train_file_pattern)
         else Inr train_files)"

definition get_valid_files :: "filesystem \<Rightarrow> string \<Rightarrow> error + string list" where
  "get_valid_files fs data_folder =
     (let valid_file =
            os_path_join data_folder [''proteinnet'', ''contact_map_valid.tfrecord'']
      in if \<not> path_exists fs valid_file then Inl (FileNotFoundError valid_file)
         else Inr [valid_file])"

section \<open>Shapes\<close>

text \<open>
  A well-shaped batch: \<open>primary\<close> and \<open>valid_mask\<close> are \<open>B \<times> L\<close> tensors of the same
  shape.
\<close>

definition rectangular :: "'a list list \<Rightarrow> bool" where
  "rectangular t \<longleftrightarrow> list_all (\<lambda>r. length r = dim1 t) t"

definition same_shape :: "'a list list \<Rightarrow> 'b list list \<Rightarrow> bool" where
  "same_shape s t \<longleftrightarrow>
     rectangular s \<and> rectangular t \<and> length s = length t \<and> dim1 s = dim1 t"

text \<open>
  The mask of one example in closed form: entry \<open>(i, j)\<close> is true iff positions \<open>i\<close>
  and \<open>j\<close> are valid and at least \<open>d\<close> apart.
\<close>

definition pair_mask :: "int \<Rightarrow> nat \<Rightarrow> bool list \<Rightarrow> bool list list" where
  "pair_mask d n v =
     map (\<lambda>i. map (\<lambda>j. v ! i \<and> v ! j \<and> d \<le> \<bar>int j - int i\<bar>) [0..<n]) [0..<n]"

section \<open>Example data\<close>

text \<open>Two proteins of lengths 3 and 2, padded to length 3.\<close>

definition example_batch :: inputs where
  "example_batch =
     \<lparr> primary = [[7, 3, 9], [4, 5, 0]],
       protein_length = [3, 2],
       valid_mask = [[True, True, True], [True, True, False]],
       contact_map = [[[0, 0, 1], [0, 0, 0], [1, 0, 0]], [[0, 1, 0], [1, 0, 0], [0, 0, 0]]] \<rparr>"

definition example_mask :: "bool list list list" where
  "example_mask =
     [[[False, False, True], [False, False, False], [True, False, False]],
      [[False, False, False], [False, False, False], [False, False, False]]]"

text \<open>The batch of the scenario: two proteins of lengths 10 and 20, padded to 20.\<close>

definition scenario_batch :: inputs where
  "scenario_batch =
     \<lparr> primary = replicate 2 (replicate 20 0),
       protein_length = [10, 20],
       valid_mask = [replicate 10 True @ replicate 10 False, replicate 20 True],
       contact_map = replicate 2 (replicate 20 (replicate 20 0)) \<rparr>"

definition scenario_outputs :: outputs where
  "scenario_outputs = \<lparr> contact_prob = replicate 2 (replicate 20 (replicate 20 [0])) \<rparr>"

text \<open>
  One protein of length 7, with the flattened mask and labels it has under the default
  distance; outputs with a logit of \<open>2000\<close> and of \<open>3\<close> on the pair \<open>(0, 0)\<close>, and
  their flattened predictions.
\<close>

definition short_batch :: inputs where
  "short_batch =
     \<lparr> primary = [[1, 2, 3, 4, 5, 6, 7]],
       protein_length = [7],
       valid_mask = [replicate 7 True],
       contact_map = [replicate 7 (replicate 7 0)] \<rparr>"

definition confident_outputs :: outputs where
  "confident_outputs =
     \<lparr> contact_prob = [([2000] # replicate 6 [0]) # replicate 6 (replicate 7 [0])] \<rparr>"

definition modest_outputs :: outputs where
  "modest_outputs =
     \<lparr> contact_prob = [([3] # replicate 6 [0]) # replicate 6 (replicate 7 [0])] \<rparr>"

definition short_mask :: "real list list" where
  "short_mask = [replicate 6 0 @ [1] @ replicate 35 0 @ [1] @ replicate 6 0]"

definition short_label :: "int list list" where
  "short_label = [replicate 49 0]"

definition confident_pred :: "real list list" where
  "confident_pred = [2000 # replicate 48 0]"

definition modest_pred :: "real list list" where
  "modest_pred = [3 # replicate 48 0]"

text \<open>A file system with no data files, and one that has a training and a validation file.\<close>

definition empty_fs :: filesystem where
  "empty_fs = \<lparr> glob = (\<lambda>p. []), path_exists = (\<lambda>p. False) \<rparr>"

definition data_fs :: filesystem where
  "data_fs =
     \<lparr> glob = (\<lambda>p. if p = ''data/proteinnet/contact_map_train*.tfrecord''
                    then [''data/proteinnet/contact_map_train_0.tfrecord''] else []),
       path_exists = (\<lambda>p. p = ''data/proteinnet/contact_map_valid.tfrecord'') \<rparr>"

section \<open>Well-shaped batches\<close>

text \<open>
  A \<open>b \<times> n \<times> n\<close> tensor, and the shapes that \<open>loss_function\<close> is written for: with
  \<open>B\<close> examples padded to length \<open>L\<close>, \<open>primary\<close> and \<open>valid_mask\<close> are \<open>B \<times> L\<close>,
  \<open>contact_map\<close> is \<open>B \<times> L \<times> L\<close> and \<open>contact_prob\<close> is \<open>B \<times> L \<times> L \<times> 1\<close>.
\<close>

definition cube :: "nat \<Rightarrow> nat \<Rightarrow> 'a list list list \<Rightarrow> bool" where
  "cube b n t \<longleftrightarrow>
     length t = b \<and> list_all (\<lambda>m. length m = n \<and> list_all (\<lambda>r. length r = n) m) t"

definition well_shaped :: "inputs \<Rightarrow> outputs \<Rightarrow> bool" where
  "well_shaped inp out \<longleftrightarrow>
     same_shape (valid_mask inp) (primary inp) \<and>
     cube (length (primary inp)) (dim1 (primary inp)) (contact_map inp) \<and>
     cube (length (primary inp)) (dim1 (primary inp)) (contact_prob out) \<and>
     list_all (list_all (list_all (\<lambda>c. length c = 1))) (contact_prob out)"

text \<open>
  \<open>top_k\<close> can be asked for \<open>max_prot_len // 5\<close> pairs: the number is not negative and
  there are that many pairs.
\<close>

definition selectable :: "inputs \<Rightarrow> bool" where
  "selectable inp \<longleftrightarrow>
     0 \<le> l_over_5 inp \<and> l_over_5 inp \<le> int (dim1 (primary inp) * dim1 (primary inp))"

text \<open>The three flattened tensors of a well-shaped batch in closed form.\<close>

definition flat_mask :: "ContactMapTask \<Rightarrow> inputs \<Rightarrow> real list list" where
  "flat_mask self inp =
     map (\<lambda>v. map of_bool (concat (pair_mask (min_residue_distance self) (dim1 (primary inp)) v)))
       (valid_mask inp)"

definition flat_label :: "inputs \<Rightarrow> int list list" where
  "flat_label inp = map concat (contact_map inp)"

definition flat_pred :: "outputs \<Rightarrow> real list list" where
  "flat_pred out = map (\<lambda>m. concat (map (map hd) m)) (contact_prob out)"

text \<open>The number of pairs of one example that are not masked out.\<close>

definition unmasked :: "real list \<Rightarrow> nat" where
  "unmasked weights = length (filter (\<lambda>m. m \<noteq> 0) weights)"

text \<open>The positions that \<open>top_k\<close> picks for the flattened tensors.\<close>

definition selected :: "ContactMapTask \<Rightarrow> inputs \<Rightarrow> outputs \<Rightarrow> nat list list" where
  "selected self inp out =
     map (\<lambda>row. top_k_row row (nat (l_over_5 inp)))
       (penalised (flat_pred out) (flat_mask self inp))"

text \<open>The entries of the rows of \<open>t\<close> at the positions \<open>idx\<close>.\<close>

definition gathered :: "'a list list \<Rightarrow> nat list list \<Rightarrow> 'a list list" where
  "gathered t idx = map2 (\<lambda>row ix. map ((!) row) ix) t idx"

text \<open>Labels that are \<open>0\<close> or \<open>1\<close>.\<close>

definition binary_labels :: "inputs \<Rightarrow> bool" where
  "binary_labels inp \<longleftrightarrow> list_all (list_all (list_all (\<lambda>z. z = 0 \<or> z = 1))) (contact_map inp)"

text \<open>
  In one example, every masked-out pair scores below every pair that is not masked out,
  once \<open>1000\<close> is taken off its prediction.
\<close>

definition separated :: "real list \<Rightarrow> real list \<Rightarrow> bool" where
  "separated preds weights \<longleftrightarrow>
     list_all (\<lambda>(p, m). list_all (\<lambda>(q, n). m \<noteq> 0 \<or> n = 0 \<or> p - 1000 < q) (zip preds weights))
       (zip preds weights)"

section \<open>Changing one pair of a batch\<close>

text \<open>
  The batch with the label of the pair \<open>(i, j)\<close> of example \<open>b\<close> replaced by \<open>z\<close>, and the
  outputs with the logit of that pair replaced by \<open>x\<close>.
\<close>

definition set_label :: "inputs \<Rightarrow> nat \<Rightarrow> nat \<Rightarrow> nat \<Rightarrow> int \<Rightarrow> inputs" where
  "set_label inp b i j z =
     inp\<lparr>contact_map :=
       (contact_map inp)[b := (contact_map inp ! b)[i := (contact_map inp ! b ! i)[j := z]]]\<rparr>"





section \<open>Properties of \<open>get_mask\<close>\<close>

lemma length_nearby [simp]: "length (nearby_contact_mask n d) = n"
  by (simp add: nearby_contact_mask_def distance_def)

lemma length_nearby_row [simp]: "i < n \<Longrightarrow> length (nearby_contact_mask n d ! i) = n"
  by (simp add: nearby_contact_mask_def distance_def)

lemma nearby_nth [simp]:
  "i < n \<Longrightarrow> j < n \<Longrightarrow> nearby_contact_mask n d ! i ! j \<longleftrightarrow> d \<le> \<bar>int j - int i\<bar>"
  by (simp add: nearby_contact_mask_def distance_def)

lemma length_outer_and [simp]: "length (outer_and v) = length v"
  by (simp add: outer_and_def)

lemma length_outer_and_row [simp]: "i < length v \<Longrightarrow> length (outer_and v ! i) = length v"
  by (simp add: outer_and_def)

lemma outer_and_nth [simp]:
  "i < length v \<Longrightarrow> j < length v \<Longrightarrow> outer_and v ! i ! j \<longleftrightarrow> v ! i \<and> v ! j"
  by (simp add: outer_and_def)

lemma and_outer_nearby:
  assumes "length v = n"
  shows "map2 (map2 (\<and>)) (outer_and v) (nearby_contact_mask n d) = pair_mask d n v"
  using assms by (auto simp: list_eq_iff_nth_eq pair_mask_def)

lemma pair_mask_nth:
  "i < n \<Longrightarrow> j < n \<Longrightarrow> pair_mask d n v ! i ! j \<longleftrightarrow> v ! i \<and> v ! j \<and> d \<le> \<bar>int j - int i\<bar>"
  by (simp add: pair_mask_def)

lemma length_pair_mask [simp]: "length (pair_mask d n v) = n"
  by (simp add: pair_mask_def)

lemma length_pair_mask_row [simp]: "i < n \<Longrightarrow> length (pair_mask d n v ! i) = n"
  by (simp add: pair_mask_def)

text \<open>On a well-shaped batch no broadcasting takes place and \<open>get_mask\<close> returns.\<close>

lemma get_mask_well_shaped:
  assumes "same_shape (valid_mask inp) (primary inp)"
    and "in_int32 (min_residue_distance self)"
  shows "get_mask self inp =
           Inr (map (pair_mask (min_residue_distance self) (dim1 (primary inp))) (valid_mask inp))"
proof -
  have "\<forall>v \<in> set (valid_mask inp). length v = dim1 (primary inp)"
    using assms(1) by (auto simp: same_shape_def rectangular_def list_all_iff)
  then have "map (\<lambda>m. map2 (map2 (\<and>)) m
                 (nearby_contact_mask (dim1 (primary inp)) (min_residue_distance self)))
               (map outer_and (valid_mask inp)) =
             map (pair_mask (min_residue_distance self) (dim1 (primary inp))) (valid_mask inp)"
    by (simp add: and_outer_nearby)
  moreover have "dim1 (valid_mask inp) = dim1 (primary inp)"
    using assms(1) by (simp add: same_shape_def)
  ultimately show ?thesis
    using assms(2) by (simp add: get_mask_def Let_def)
qed

lemma example_batch_shape: "same_shape (valid_mask example_batch) (primary example_batch)"
  by code_simp

lemma example_batch_mask: "get_mask (init (Some 2)) example_batch = Inr example_mask"
  by code_simp

lemma example_distance: "in_int32 (min_residue_distance (init (Some 2)))"
  by code_simp

text \<open>
  C6. Whatever \<open>get_mask\<close> returns is, for every example \<open>b\<close>, a square matrix that is
  symmetric: \<open>mask[b, i, j] = mask[b, j, i]\<close>. This holds for every distance threshold
  and also where the mask came about by broadcasting.
\<close>

theorem get_mask_symmetric:
  assumes "get_mask self inp = Inr m"
    and "b < length m" and "i < length (m ! b)" and "j < length (m ! b)"
  shows "length (m ! b ! i) = length (m ! b) \<and> m ! b ! i ! j = m ! b ! j ! i"
proof -
  let ?near = "nearby_contact_mask (dim1 (primary inp)) (min_residue_distance self)"
  let ?valid = "map outer_and (valid_mask inp)"
  consider
      (same) "m = map (\<lambda>m. map2 (map2 (\<and>)) m ?near) ?valid"
    | (one) "m = map (\<lambda>m. map (map (\<lambda>y. m ! 0 ! 0 \<and> y)) ?near) ?valid"
    | (single) "m = map (map (map (\<lambda>x. x \<and> ?near ! 0 ! 0))) ?valid"
    using assms(1) by (auto simp: get_mask_def Let_def split: if_splits)
  then show ?thesis
  proof cases
    case same
    with assms(2-4) show ?thesis by (auto simp: abs_minus_commute)
  next
    case one
    with assms(2-4) show ?thesis by (auto simp: abs_minus_commute)
  next
    case single
    with assms(2-4) show ?thesis by auto
  qed
qed

theorem get_mask_symmetric_witness:
  "get_mask (init (Some 2)) example_batch = Inr example_mask \<and>
   0 < length example_mask \<and> 0 < length (example_mask ! 0) \<and> 2 < length (example_mask ! 0) \<and>
   length (example_mask ! 0 ! 0) = length (example_mask ! 0) \<and>
   example_mask ! 0 ! 0 ! 2 = example_mask ! 0 ! 2 ! 0 \<and> example_mask ! 0 ! 0 ! 2"
proof -
  have len: "0 < length example_mask" "0 < length (example_mask ! 0)" "2 < length (example_mask ! 0)"
    by (simp_all add: example_mask_def)
  have "example_mask ! 0 ! 0 ! 2"
    by (simp add: example_mask_def)
  with len get_mask_symmetric [OF example_batch_mask len] example_batch_mask
  show ?thesis by simp
qed

text \<open>
  C7. On a well-shaped batch the diagonal entry \<open>mask[b, i, i]\<close> is true iff position
  \<open>i\<close> of example \<open>b\<close> is valid and \<open>min_residue_distance \<le> 0\<close>. So with
  \<open>min_residue_distance \<ge> 1\<close> the diagonal is false throughout, and with
  \<open>min_residue_distance \<le> 0\<close> it is the validity flag of the position.
\<close>

theorem get_mask_diagonal:
  assumes "same_shape (valid_mask inp) (primary inp)"
    and "in_int32 (min_residue_distance self)"
    and "b < length (valid_mask inp)" and "i < dim1 (primary inp)"
  shows "\<exists>m. get_mask self inp = Inr m \<and>
           (m ! b ! i ! i \<longleftrightarrow> valid_mask inp ! b ! i \<and> min_residue_distance self \<le> 0)"
  using assms by (simp add: get_mask_well_shaped pair_mask_nth)

theorem get_mask_diagonal_witness:
  "same_shape (valid_mask example_batch) (primary example_batch) \<and>
   in_int32 (min_residue_distance (init (Some 2))) \<and>
   0 < length (valid_mask example_batch) \<and> 1 < dim1 (primary example_batch) \<and>
   (\<exists>m. get_mask (init (Some 2)) example_batch = Inr m \<and>
      (m ! 0 ! 1 ! 1 \<longleftrightarrow>
         valid_mask example_batch ! 0 ! 1 \<and> min_residue_distance (init (Some 2)) \<le> 0))"
proof -
  have b: "0 < length (valid_mask example_batch)" by code_simp
  have i: "1 < dim1 (primary example_batch)" by code_simp
  from get_mask_diagonal [OF example_batch_shape example_distance b i]
  show ?thesis
    using example_batch_shape example_distance b i by blast
qed

text \<open>
  C8. On a well-shaped batch, a position \<open>i\<close> of example \<open>b\<close> whose \<open>valid_mask\<close> is
  false has \<open>mask[b, i, j]\<close> and \<open>mask[b, j, i]\<close> false for every \<open>j\<close>.
\<close>

theorem get_mask_padding:
  assumes "same_shape (valid_mask inp) (primary inp)"
    and "in_int32 (min_residue_distance self)"
    and "b < length (valid_mask inp)" and "i < dim1 (primary inp)" and "j < dim1 (primary inp)"
    and "\<not> valid_mask inp ! b ! i"
  shows "\<exists>m. get_mask self inp = Inr m \<and> \<not> m ! b ! i ! j \<and> \<not> m ! b ! j ! i"
  using assms by (simp add: get_mask_well_shaped pair_mask_nth)

theorem get_mask_padding_witness:
  "same_shape (valid_mask example_batch) (primary example_batch) \<and>
   in_int32 (min_residue_distance (init (Some 2))) \<and>
   1 < length (valid_mask example_batch) \<and> 2 < dim1 (primary example_batch) \<and>
   0 < dim1 (primary example_batch) \<and> \<not> valid_mask example_batch ! 1 ! 2 \<and>
   (\<exists>m. get_mask (init (Some 2)) example_batch = Inr m \<and> \<not> m ! 1 ! 2 ! 0 \<and> \<not> m ! 1 ! 0 ! 2)"
proof -
  have b: "1 < length (valid_mask example_batch)" by code_simp
  have i: "2 < dim1 (primary example_batch)" by code_simp
  have j: "0 < dim1 (primary example_batch)" by code_simp
  have v: "\<not> valid_mask example_batch ! 1 ! 2" by code_simp
  from get_mask_padding [OF example_batch_shape example_distance b i j v]
  show ?thesis
    using example_batch_shape example_distance b i j v by blast
qed

section \<open>Properties of \<open>get_data\<close>\<close>

lemma sqrt_400: "sqrt 400 = 20"
  using real_sqrt_abs [of 20] by simp

lemma sqrt_100: "sqrt 100 = 10"
  using real_sqrt_abs [of 10] by simp

lemma sqrt_64: "sqrt 64 = 8"
  using real_sqrt_abs [of 8] by simp

text \<open>Any other relation between the two lengths ends in an \<open>IndexError\<close>.\<close>

lemma get_data_length_mismatch:
  assumes "list_all in_int32 bounds" and "length batch_sizes \<noteq> Suc (length bounds)"
  shows "get_data (bounds, batch_sizes) = Inl IndexError"
  using assms by (cases "batch_sizes = []") (auto simp: get_data_def mask_assign_def Let_def)

text \<open>
  C5, as the code has it. \<open>get_data\<close> takes one more batch size than boundaries: the
  boundaries mask indexes all batch sizes but the last. Then every bucket but the last
  gets \<open>0\<close> if its boundary exceeds \<open>1000\<close> and otherwise \<open>floor(sqrt(size) / 4)\<close>,
  raised to \<open>1\<close> if that is not positive; the last bucket gets \<open>0\<close>. For the
  boundaries \<open>[500, 1500]\<close> and the sizes \<open>[400, 100, 64]\<close> this is \<open>[5, 0, 0]\<close>.
\<close>

theorem get_data_rescales:
  assumes "list_all in_int32 bounds" and "length batch_sizes = Suc (length bounds)"
  shows "get_data (bounds, batch_sizes) =
           Inr (bounds,
                map2 (\<lambda>n b. if 1000 < b then 0
                             else if \<lfloor>sqrt (real n) / 4\<rfloor> \<le> 0 then 1
                             else \<lfloor>sqrt (real n) / 4\<rfloor>)
                  (butlast batch_sizes) bounds @ [0])"
proof -
  have ne: "batch_sizes \<noteq> []" using assms(2) by auto
  have len: "length (butlast batch_sizes) = length bounds" using assms(2) by simp
  have "map2 (\<lambda>x c. if c then 0 else x)
          (butlast (map (\<lambda>x. if x \<le> 0 then 1 else x)
             (map (\<lambda>n. \<lfloor>sqrt (real n) / 4\<rfloor>) batch_sizes)))
          (map (\<lambda>b. 1000 < b) bounds) =
        map2 (\<lambda>n b. if 1000 < b then 0
                     else if \<lfloor>sqrt (real n) / 4\<rfloor> \<le> 0 then 1
                     else \<lfloor>sqrt (real n) / 4\<rfloor>)
          (butlast batch_sizes) bounds"
    using len by (auto simp: list_eq_iff_nth_eq map_butlast [symmetric])
  then show ?thesis
    using assms ne by (simp add: get_data_def mask_assign_def Let_def)
qed

theorem get_data_rescales_witness:
  "list_all in_int32 [500, 1500] \<and> length [400, 100, 64 :: nat] = Suc (length [500, 1500 :: int]) \<and>
   get_data ([500, 1500], [400, 100, 64]) = Inr ([500, 1500], [5, 0, 0])"
  using get_data_rescales [of "[500, 1500]" "[400, 100, 64]"]
  by (simp add: in_int32_def sqrt_400 sqrt_100 sqrt_64)

text \<open>
  The scenario with three boundaries and three batch sizes does not return
  \<open>[5, 0, 0]\<close>: the mask of the three boundaries does not fit the two leading batch
  sizes.
\<close>

theorem get_data_equal_length_counterexample:
  "get_data ([500, 1500, 1000000000], [400, 100, 64]) = Inl IndexError"
  by (simp add: get_data_def mask_assign_def in_int32_def Let_def)

section \<open>Properties of file discovery\<close>

lemma join_train [simp]:
  "os_path_join ''data'' [''proteinnet'', ''contact_map_train*.tfrecord''] =
     ''data/proteinnet/contact_map_train*.tfrecord''"
  by (simp add: os_path_join_def join2_def)

lemma join_valid [simp]:
  "os_path_join ''data'' [''proteinnet'', ''contact_map_valid.tfrecord''] =
     ''data/proteinnet/contact_map_valid.tfrecord''"
  by (simp add: os_path_join_def join2_def)

text \<open>
  C9. \<open>get_train_files\<close> raises \<open>FileNotFoundError\<close> with the glob pattern exactly when
  the pattern matches no file, and returns the matches otherwise; \<open>get_valid_files\<close>
  raises \<open>FileNotFoundError\<close> with the path exactly when the validation file does not
  exist, and returns that one path otherwise.
\<close>

theorem file_discovery:
  "get_train_files fs data_folder =
     (case glob fs (os_path_join data_folder [''proteinnet'', ''contact_map_train*.tfrecord'']) of
        [] \<Rightarrow> Inl (FileNotFoundError
                 (os_path_join data_folder [''proteinnet'', ''contact_map_train*.tfrecord'']))
      | f # fs' \<Rightarrow> Inr (f # fs')) \<and>
   get_valid_files fs data_folder =
     (if path_exists fs (os_path_join data_folder [''proteinnet'', ''contact_map_valid.tfrecord''])
      then Inr [os_path_join data_folder [''proteinnet'', ''contact_map_valid.tfrecord'']]
      else Inl (FileNotFoundError
                 (os_path_join data_folder [''proteinnet'', ''contact_map_valid.tfrecord''])))"
  by (simp add: get_train_files_def get_valid_files_def Let_def split: list.split)

theorem file_discovery_witness:
  "get_train_files empty_fs ''data'' =
     Inl (FileNotFoundError ''data/proteinnet/contact_map_train*.tfrecord'') \<and>
   get_valid_files empty_fs ''data'' =
     Inl (FileNotFoundError ''data/proteinnet/contact_map_valid.tfrecord'') \<and>
   get_train_files data_fs ''data'' = Inr [''data/proteinnet/contact_map_train_0.tfrecord''] \<and>
   get_valid_files data_fs ''data'' = Inr [''data/proteinnet/contact_map_valid.tfrecord'']"
  using file_discovery [of empty_fs "''data''"] file_discovery [of data_fs "''data''"]
  by (simp add: empty_fs_def data_fs_def)

section \<open>\<open>loss_function\<close> on well-shaped batches\<close>

text \<open>Reshaping a \<open>b \<times> n \<times> n\<close> tensor flattens each of its matrices.\<close>

lemma length_concat_uniform:
  "\<forall>r \<in> set m. length r = n \<Longrightarrow> length (concat m) = length m * n"
  by (induction m) auto

lemma concat_concat_map: "concat (concat t) = concat (map concat t)"
  by (induction t) auto

lemma chunk_concat:
  "\<forall>m \<in> set t. length m = k \<Longrightarrow> chunk (length t) k (concat t) = t"
  by (induction t) auto

lemma reshape2_uniform:
  assumes "length t = b" and "\<forall>m \<in> set t. length (concat m) = k"
  shows "reshape2 t b k = Inr (map concat t)"
proof -
  have "length (concat (map concat t)) = length t * k"
    using assms(2) by (intro length_concat_uniform [where m = "map concat t", simplified]) auto
  moreover have "chunk (length (map concat t)) k (concat (map concat t)) = map concat t"
    using assms(2) by (intro chunk_concat) auto
  ultimately show ?thesis
    using assms(1) by (simp add: reshape2_def concat_concat_map)
qed

lemma cube_dim1: "cube b n t \<Longrightarrow> t \<noteq> [] \<Longrightarrow> dim1 t = n"
  by (cases t) (auto simp: cube_def dim1_def)

lemma cube_concat:
  assumes "cube b n t" and "m \<in> set t"
  shows "length (concat m) = n * n"
proof -
  have "length m = n" "\<forall>r \<in> set m. length r = n"
    using assms by (auto simp: cube_def list_all_iff)
  then show ?thesis using length_concat_uniform [of m n] by simp
qed

lemma cube_reshape2:
  assumes "cube b n t" and "b = 0 \<or> s = n"
  shows "reshape2 t b (s * s) = Inr (map concat t)"
proof (rule reshape2_uniform)
  show "length t = b" using assms(1) by (simp add: cube_def)
  show "\<forall>m \<in> set t. length (concat m) = s * s"
  proof
    fix m assume m: "m \<in> set t"
    then have "t \<noteq> []" by auto
    then have "b \<noteq> 0" using assms(1) by (auto simp: cube_def)
    then show "length (concat m) = s * s"
      using assms(2) cube_concat [OF assms(1) m] by simp
  qed
qed

lemma cube_pair_mask:
  "cube (length vm) n (map (pair_mask d n) vm)"
  by (auto simp: cube_def list_all_iff pair_mask_def)

lemma cube_squeezed:
  "cube b n t \<Longrightarrow> cube b n (map (map (map hd)) t)"
  by (auto simp: cube_def list_all_iff)

lemma flat_tensors_well_shaped:
  assumes "well_shaped inp out" and "in_int32 (min_residue_distance self)"
  shows "flat_tensors self inp out = Inr (flat_mask self inp, flat_label inp, flat_pred out)"
proof -
  let ?B = "length (primary inp)" and ?L = "dim1 (primary inp)"
  let ?s = "dim1 (contact_map inp)"
  have shape: "same_shape (valid_mask inp) (primary inp)"
    and lab: "cube ?B ?L (contact_map inp)"
    and prd: "cube ?B ?L (contact_prob out)"
    and one: "list_all (list_all (list_all (\<lambda>c. length c = 1))) (contact_prob out)"
    using assms(1) by (simp_all add: well_shaped_def)
  have B: "length (contact_map inp) = ?B" "length (valid_mask inp) = ?B"
    using lab shape by (simp_all add: cube_def same_shape_def)
  have s: "?B = 0 \<or> ?s = ?L"
    using cube_dim1 [OF lab] B(1) by (cases "contact_map inp") auto
  have m: "get_mask self inp = Inr (map (pair_mask (min_residue_distance self) ?L) (valid_mask inp))"
    by (rule get_mask_well_shaped [OF shape assms(2)])
  have r1: "reshape2 (map (pair_mask (min_residue_distance self) ?L) (valid_mask inp)) ?B (?s * ?s) =
              Inr (map concat (map (pair_mask (min_residue_distance self) ?L) (valid_mask inp)))"
    using cube_pair_mask [of "valid_mask inp" ?L] B(2) s by (intro cube_reshape2) auto
  have r2: "reshape2 (contact_map inp) ?B (?s * ?s) = Inr (map concat (contact_map inp))"
    using lab s by (rule cube_reshape2)
  have r3: "reshape2 (map (map (map hd)) (contact_prob out)) ?B (?s * ?s) =
              Inr (map concat (map (map (map hd)) (contact_prob out)))"
    using cube_squeezed [OF prd] s by (rule cube_reshape2)
  show ?thesis
    using one by (simp add: flat_tensors_def m squeeze3_def Let_def B r1 r2 r3
        flat_mask_def flat_label_def flat_pred_def)
qed

text \<open>\<open>top_k\<close> returns when it is asked for no more entries than a row has.\<close>

lemma length_top_k_row: "length (top_k_row row k) = min k (length row)"
  by (simp add: top_k_row_def min.commute)

lemma set_top_k_row: "c \<in> set (top_k_row row k) \<Longrightarrow> c < length row"
  by (auto simp: top_k_row_def dest: in_set_takeD)

lemma distinct_top_k_row: "distinct (top_k_row row k)"
  by (simp add: top_k_row_def)

lemma top_k_returns:
  assumes "0 \<le> k" and "\<forall>row \<in> set t. k \<le> int (length row)"
  shows "top_k t k =
           Inr (map2 (\<lambda>row ix. map ((!) row) ix) t (map (\<lambda>row. top_k_row row (nat k)) t),
                map (\<lambda>row. top_k_row row (nat k)) t)"
  using assms by (simp add: top_k_def list_all_iff Let_def)

lemma length_penalised [simp]: "length (penalised x w) = min (length x) (length w)"
  by (simp add: penalised_def)

lemma penalised_nth:
  "b < length x \<Longrightarrow> b < length w \<Longrightarrow>
     penalised x w ! b = map2 (\<lambda>p m. p - 1000 * (1 - m)) (x ! b) (w ! b)"
  by (simp add: penalised_def)

text \<open>Stacking the row numbers onto the chosen positions and gathering.\<close>

lemma gather_rows:
  assumes len: "length idx = length t"
    and k: "\<forall>ix \<in> set idx. length ix = nat k"
    and rng: "\<forall>b < length t. \<forall>c \<in> set (idx ! b). c < length (t ! b)"
  shows "\<exists>ix. stack_last (fst (meshgrid_ij (length t) k)) idx = Inr ix \<and>
              gather_nd t ix = Inr (gathered t idx)"
proof -
  let ?ii = "map (\<lambda>r. replicate (nat k) r) [0..<length t]"
  let ?ix = "map2 zip ?ii idx"
  have "map length ?ii = map length idx"
  proof (rule nth_equalityI)
    show "length (map length ?ii) = length (map length idx)" using len by simp
    fix b assume "b < length (map length ?ii)"
    then have b: "b < length idx" using len by simp
    then have "length (idx ! b) = nat k" using k by simp
    then show "map length ?ii ! b = map length idx ! b" using b len by simp
  qed
  then have st: "stack_last (fst (meshgrid_ij (length t) k)) idx = Inr ?ix"
    by (simp add: stack_last_def meshgrid_ij_def)
  have row: "?ix ! b = map (Pair b) (idx ! b)" if "b < length t" for b
  proof -
    have "length (idx ! b) = nat k" using k len that by auto
    then have "zip (replicate (nat k) b) (idx ! b) = map (Pair b) (idx ! b)"
      by (simp add: list_eq_iff_nth_eq)
    then show ?thesis using that len by simp
  qed
  have ok: "list_all (list_all (\<lambda>(r, c). r < length t \<and> c < length (t ! r))) ?ix"
  proof -
    have "r < length t \<and> c < length (t ! r)" if "row \<in> set ?ix" and "(r, c) \<in> set row" for row r c
    proof -
      from that(1) obtain b where b: "b < length ?ix" and "row = ?ix ! b"
        by (auto simp: in_set_conv_nth)
      then have bt: "b < length t" and "row = map (Pair b) (idx ! b)"
        using len row by simp_all
      with that(2) have "r = b" "c \<in> set (idx ! b)" by auto
      with rng bt show ?thesis by simp
    qed
    then show ?thesis unfolding list_all_iff by blast
  qed
  have "map (map (\<lambda>(r, c). t ! r ! c)) ?ix = gathered t idx"
  proof (rule nth_equalityI)
    show "length (map (map (\<lambda>(r, c). t ! r ! c)) ?ix) = length (gathered t idx)"
      using len by (simp add: gathered_def)
    fix b assume "b < length (map (map (\<lambda>(r, c). t ! r ! c)) ?ix)"
    then have b: "b < length t" using len by simp
    have "map (map (\<lambda>(r, c). t ! r ! c)) ?ix ! b = map (\<lambda>(r, c). t ! r ! c) (?ix ! b)"
      using b len by simp
    also have "\<dots> = map ((!) (t ! b)) (idx ! b)"
      by (simp add: row [OF b] comp_def)
    also have "\<dots> = gathered t idx ! b"
      using b len by (simp add: gathered_def)
    finally show "map (map (\<lambda>(r, c). t ! r ! c)) ?ix ! b = gathered t idx ! b" .
  qed
  with ok have "gather_nd t ?ix = Inr (gathered t idx)"
    by (simp add: gather_nd_def)
  with st show ?thesis by blast
qed

text \<open>The shapes of the flattened tensors, and what \<open>loss_function\<close> returns.\<close>

lemma well_shaped_lengths:
  assumes "well_shaped inp out"
  shows "length (flat_mask self inp) = length (primary inp)"
    and "length (flat_label inp) = length (primary inp)"
    and "length (flat_pred out) = length (primary inp)"
  using assms by (simp_all add: well_shaped_def same_shape_def cube_def
      flat_mask_def flat_label_def flat_pred_def)

lemma length_concat_pair_mask: "length (concat (pair_mask d n v)) = n * n"
proof -
  have "\<forall>r \<in> set (pair_mask d n v). length r = n"
    by (auto simp: pair_mask_def)
  then show ?thesis using length_concat_uniform [of "pair_mask d n v" n] by simp
qed

lemma flat_mask_row:
  "row \<in> set (flat_mask self inp) \<Longrightarrow> length row = dim1 (primary inp) * dim1 (primary inp)"
  by (auto simp: flat_mask_def length_concat_pair_mask)

lemma flat_label_row:
  assumes "well_shaped inp out" and "row \<in> set (flat_label inp)"
  shows "length row = dim1 (primary inp) * dim1 (primary inp)"
  using assms cube_concat by (fastforce simp: well_shaped_def flat_label_def)

lemma flat_pred_row:
  assumes "well_shaped inp out" and "row \<in> set (flat_pred out)"
  shows "length row = dim1 (primary inp) * dim1 (primary inp)"
proof -
  from assms(2) obtain m where m: "m \<in> set (contact_prob out)" and row: "row = concat (map (map hd) m)"
    by (auto simp: flat_pred_def)
  have "cube (length (primary inp)) (dim1 (primary inp)) (map (map (map hd)) (contact_prob out))"
    using assms(1) by (simp add: well_shaped_def cube_squeezed)
  moreover have "map (map hd) m \<in> set (map (map (map hd)) (contact_prob out))"
    using m by simp
  ultimately show ?thesis unfolding row by (rule cube_concat)
qed

lemma penalised_row:
  assumes "well_shaped inp out" and "row \<in> set (penalised (flat_pred out) (flat_mask self inp))"
  shows "length row = dim1 (primary inp) * dim1 (primary inp)"
proof -
  from assms(2) obtain b where b: "b < length (flat_pred out)" "b < length (flat_mask self inp)"
    and row: "row = penalised (flat_pred out) (flat_mask self inp) ! b"
    by (auto simp: in_set_conv_nth)
  have "length (flat_pred out ! b) = dim1 (primary inp) * dim1 (primary inp)"
    using flat_pred_row [OF assms(1) nth_mem [OF b(1)]] .
  moreover have "length (flat_mask self inp ! b) = dim1 (primary inp) * dim1 (primary inp)"
    using flat_mask_row [OF nth_mem [OF b(2)]] .
  ultimately show ?thesis using b by (simp add: row penalised_nth)
qed

lemma length_selected:
  "well_shaped inp out \<Longrightarrow> length (selected self inp out) = length (primary inp)"
  by (simp add: selected_def well_shaped_lengths)

lemma selected_row:
  assumes "well_shaped inp out" and "selectable inp" and "ix \<in> set (selected self inp out)"
  shows "length ix = nat (l_over_5 inp)"
    and "distinct ix"
    and "\<forall>c \<in> set ix. c < dim1 (primary inp) * dim1 (primary inp)"
proof -
  from assms(3) obtain row where row: "row \<in> set (penalised (flat_pred out) (flat_mask self inp))"
    and ix: "ix = top_k_row row (nat (l_over_5 inp))"
    by (auto simp: selected_def)
  have len: "length row = dim1 (primary inp) * dim1 (primary inp)"
    by (rule penalised_row [OF assms(1) row])
  have "nat (l_over_5 inp) \<le> dim1 (primary inp) * dim1 (primary inp)"
    using assms(2) by (simp add: selectable_def nat_le_iff)
  then show "length ix = nat (l_over_5 inp)"
    using len by (simp add: ix length_top_k_row)
  show "distinct ix" by (simp add: ix distinct_top_k_row)
  show "\<forall>c \<in> set ix. c < dim1 (primary inp) * dim1 (primary inp)"
  proof
    fix c assume "c \<in> set ix"
    then have "c < length row" unfolding ix by (rule set_top_k_row)
    then show "c < dim1 (primary inp) * dim1 (primary inp)" using len by simp
  qed
qed

lemma top_l_over_5_well_shaped:
  assumes ws: "well_shaped inp out" and sel: "selectable inp"
  shows "top_l_over_5 inp (flat_mask self inp) (flat_label inp) (flat_pred out) =
           Inr (selected self inp out,
                map (map of_int) (gathered (flat_label inp) (selected self inp out)),
                gathered (flat_mask self inp) (selected self inp out))"
proof -
  let ?idx = "selected self inp out"
  let ?k = "l_over_5 inp"
  have "\<forall>row \<in> set (penalised (flat_pred out) (flat_mask self inp)). ?k \<le> int (length row)"
    using penalised_row [OF ws] sel by (simp add: selectable_def)
  then have tk: "top_k (penalised (flat_pred out) (flat_mask self inp)) ?k =
      Inr (map2 (\<lambda>row ix. map ((!) row) ix) (penalised (flat_pred out) (flat_mask self inp)) ?idx, ?idx)"
    using sel unfolding selected_def by (intro top_k_returns) (simp_all add: selectable_def)
  have k: "\<forall>ix \<in> set ?idx. length ix = nat ?k"
    using selected_row(1) [OF ws sel] by blast
  have rl: "\<forall>b < length (flat_label inp). \<forall>c \<in> set (?idx ! b). c < length (flat_label inp ! b)"
  proof (intro allI impI)
    fix b assume b: "b < length (flat_label inp)"
    then have "b < length ?idx"
      using length_selected [OF ws] well_shaped_lengths(2) [OF ws] by simp
    from selected_row(3) [OF ws sel nth_mem [OF this]] flat_label_row [OF ws nth_mem [OF b]]
    show "\<forall>c \<in> set (?idx ! b). c < length (flat_label inp ! b)" by simp
  qed
  have rm: "\<forall>b < length (flat_mask self inp). \<forall>c \<in> set (?idx ! b). c < length (flat_mask self inp ! b)"
  proof (intro allI impI)
    fix b assume b: "b < length (flat_mask self inp)"
    then have "b < length ?idx"
      using length_selected [OF ws] well_shaped_lengths(1) [OF ws] by simp
    from selected_row(3) [OF ws sel nth_mem [OF this]] flat_mask_row [OF nth_mem [OF b]]
    show "\<forall>c \<in> set (?idx ! b). c < length (flat_mask self inp ! b)" by simp
  qed
  obtain ix where st: "stack_last (fst (meshgrid_ij (length (flat_label inp)) ?k)) ?idx = Inr ix"
    and gl: "gather_nd (flat_label inp) ix = Inr (gathered (flat_label inp) ?idx)"
    using gather_rows [OF _ k rl] length_selected [OF ws] well_shaped_lengths(2) [OF ws] by auto
  obtain ix' where "stack_last (fst (meshgrid_ij (length (flat_mask self inp)) ?k)) ?idx = Inr ix'"
    and "gather_nd (flat_mask self inp) ix' = Inr (gathered (flat_mask self inp) ?idx)"
    using gather_rows [OF _ k rm] length_selected [OF ws] well_shaped_lengths(1) [OF ws] by auto
  with st have gm: "gather_nd (flat_mask self inp) ix = Inr (gathered (flat_mask self inp) ?idx)"
    by (simp add: well_shaped_lengths [OF ws])
  show ?thesis
    using st by (simp add: top_l_over_5_def tk gl gm split_beta)
qed

lemma loss_function_well_shaped:
  assumes "well_shaped inp out" and "in_int32 (min_residue_distance self)" and "selectable inp"
  shows "loss_function self inp out =
           Inr (sigmoid_cross_entropy (flat_label inp) (flat_pred out) (flat_mask self inp),
                Map.empty(key_metric self \<mapsto>
                  accuracy (map (map of_int) (gathered (flat_label inp) (selected self inp out)))
                    (gathered (flat_mask self inp) (selected self inp out))))"
  by (simp add: loss_function_def flat_tensors_well_shaped [OF assms(1,2)]
      top_l_over_5_well_shaped [OF assms(1,3)])

section \<open>Properties of \<open>loss_function\<close>\<close>

lemma scenario_well_shaped: "well_shaped scenario_batch scenario_outputs"
  by code_simp

lemma scenario_selectable: "selectable scenario_batch"
  by code_simp

lemma default_distance: "in_int32 (min_residue_distance (init None))"
  by code_simp

lemma scenario_binary: "binary_labels scenario_batch"
  by code_simp


lemma scenario_width: "dim1 (primary scenario_batch) = 20"
  by code_simp

text \<open>Entries of the flattened tensors.\<close>

lemma flat_mask_entries:
  assumes "row \<in> set (flat_mask self inp)" and "w \<in> set row"
  shows "w = 0 \<or> w = 1"
  using assms by (auto simp: flat_mask_def)

lemma flat_label_entries:
  assumes "binary_labels inp" and "row \<in> set (flat_label inp)" and "z \<in> set row"
  shows "z = 0 \<or> z = 1"
proof -
  from assms(2,3) obtain m r where "m \<in> set (contact_map inp)" "r \<in> set m" "z \<in> set r"
    by (auto simp: flat_label_def)
  with assms(1) show ?thesis
    unfolding binary_labels_def list_all_iff by blast
qed

lemma gathered_entries:
  assumes "length idx = length t"
    and "\<forall>b < length t. \<forall>c \<in> set (idx ! b). c < length (t ! b)"
    and "row \<in> set (gathered t idx)" and "x \<in> set row"
  shows "\<exists>r \<in> set t. x \<in> set r"
proof -
  from assms(3) obtain b where b: "b < length t" "b < length idx"
    and row: "row = map ((!) (t ! b)) (idx ! b)"
    by (auto simp: gathered_def in_set_conv_nth)
  from assms(4) row obtain c where c: "c \<in> set (idx ! b)" and x: "x = t ! b ! c"
    by auto
  have "c < length (t ! b)" using assms(2) b(1) c by simp
  then have "x \<in> set (t ! b)" by (simp add: x)
  then show ?thesis using b(1) nth_mem by blast
qed

lemma selected_in_range:
  assumes ws: "well_shaped inp out" and sel: "selectable inp"
    and "length t = length (primary inp)"
    and "\<forall>row \<in> set t. length row = dim1 (primary inp) * dim1 (primary inp)"
  shows "\<forall>b < length t. \<forall>c \<in> set (selected self inp out ! b). c < length (t ! b)"
proof (intro allI impI)
  fix b assume b: "b < length t"
  then have "b < length (selected self inp out)"
    using length_selected [OF ws] assms(3) by simp
  from selected_row(3) [OF ws sel nth_mem [OF this]] assms(4) nth_mem [OF b]
  show "\<forall>c \<in> set (selected self inp out ! b). c < length (t ! b)" by simp
qed

text \<open>Sums of products with factors between \<open>0\<close> and \<open>1\<close>.\<close>

lemma sum_list_prod_bounds:
  fixes a m :: "real list"
  assumes "\<forall>x \<in> set a. 0 \<le> x \<and> x \<le> 1" and "\<forall>y \<in> set m. 0 \<le> y"
  shows "0 \<le> sum_list (map2 (*) a m) \<and> sum_list (map2 (*) a m) \<le> sum_list m"
  using assms
proof (induction a arbitrary: m)
  case Nil
  then show ?case by (simp add: sum_list_nonneg)
next
  case (Cons x a)
  show ?case
  proof (cases m)
    case Nil
    then show ?thesis by simp
  next
    case (Cons y m')
    have ih: "0 \<le> sum_list (map2 (*) a m') \<and> sum_list (map2 (*) a m') \<le> sum_list m'"
      using Cons.prems Cons by (intro Cons.IH) auto
    have x: "0 \<le> x" "x \<le> 1" and y: "0 \<le> y" using Cons.prems Cons by auto
    have "0 \<le> x * y" "x * y \<le> y"
      using x y by (simp_all add: mult_left_le_one_le)
    with ih show ?thesis using Cons by simp
  qed
qed

lemma reduce_sum_prod_bounds:
  assumes "\<forall>row \<in> set a. \<forall>x \<in> set row. 0 \<le> x \<and> x \<le> 1"
    and "\<forall>row \<in> set m. \<forall>y \<in> set row. 0 \<le> y"
  shows "0 \<le> reduce_sum (map2 (map2 (*)) a m) \<and> reduce_sum (map2 (map2 (*)) a m) \<le> reduce_sum m"
  using assms
proof (induction a arbitrary: m)
  case Nil
  then have "0 \<le> sum_list (map sum_list m)"
    by (intro sum_list_nonneg) (auto intro: sum_list_nonneg)
  then show ?case by (simp add: reduce_sum_def)
next
  case (Cons r a)
  show ?case
  proof (cases m)
    case Nil
    then show ?thesis by (simp add: reduce_sum_def)
  next
    case (Cons s m')
    have ih: "0 \<le> reduce_sum (map2 (map2 (*)) a m') \<and>
              reduce_sum (map2 (map2 (*)) a m') \<le> reduce_sum m'"
      using Cons.prems Cons by (intro Cons.IH) auto
    have "0 \<le> sum_list (map2 (*) r s) \<and> sum_list (map2 (*) r s) \<le> sum_list s"
      using Cons.prems Cons by (intro sum_list_prod_bounds) auto
    with ih show ?thesis using Cons by (simp add: reduce_sum_def)
  qed
qed

lemma accuracy_bounds:
  assumes "\<forall>row \<in> set a. \<forall>x \<in> set row. 0 \<le> x \<and> x \<le> 1"
    and "\<forall>row \<in> set m. \<forall>y \<in> set row. 0 \<le> y"
  shows "0 < reduce_sum m + 1 / 10 ^ 8"
    and "0 \<le> accuracy a m" and "accuracy a m \<le> 1"
    and "0 < reduce_sum m \<or> accuracy a m = 0"
proof -
  let ?n = "reduce_sum (map2 (map2 (*)) a m)"
  have n: "0 \<le> ?n" "?n \<le> reduce_sum m"
    using reduce_sum_prod_bounds [OF assms] by simp_all
  then show d: "0 < reduce_sum m + 1 / 10 ^ 8" by simp
  show "0 \<le> accuracy a m"
    using n d by (simp add: accuracy_def)
  have "?n \<le> reduce_sum m + 1 / 10 ^ 8" using n by simp
  then show "accuracy a m \<le> 1"
    using d by (simp add: accuracy_def)
  show "0 < reduce_sum m \<or> accuracy a m = 0"
  proof (cases "0 < reduce_sum m")
    case False
    with n have "?n = 0" by simp
    then show ?thesis by (simp add: accuracy_def)
  qed simp
qed

text \<open>
  C4. On a well-shaped batch with labels \<open>0\<close> and \<open>1\<close>, \<open>loss_function\<close> returns
  under the key \<open>ACC\<close> the sum of label times mask weight over the selected positions,
  divided by the sum of the selected mask weights plus \<open>1e-8\<close>. The divisor is positive,
  the value lies between \<open>0\<close> and \<open>1\<close>, and it is \<open>0\<close> when the selected weights sum to
  \<open>0\<close>.
\<close>

theorem accuracy_in_unit_interval:
  assumes "well_shaped inp out" and "in_int32 (min_residue_distance (init d))"
    and "selectable inp" and "binary_labels inp"
  shows "\<exists>mask' label pred indices l5_labels l5_mask loss metrics.
           flat_tensors (init d) inp out = Inr (mask', label, pred) \<and>
           top_l_over_5 inp mask' label pred = Inr (indices, l5_labels, l5_mask) \<and>
           loss_function (init d) inp out = Inr (loss, metrics) \<and>
           metrics ''ACC'' =
             Some (reduce_sum (map2 (map2 (*)) l5_labels l5_mask) / (reduce_sum l5_mask + 1 / 10 ^ 8)) \<and>
           0 < reduce_sum l5_mask + 1 / 10 ^ 8 \<and>
           0 \<le> the (metrics ''ACC'') \<and> the (metrics ''ACC'') \<le> 1 \<and>
           (0 < reduce_sum l5_mask \<or> the (metrics ''ACC'') = 0)"
proof -
  let ?self = "init d"
  let ?idx = "selected ?self inp out"
  let ?a = "map (map of_int) (gathered (flat_label inp) ?idx) :: real list list"
  let ?m = "gathered (flat_mask ?self inp) ?idx"
  have li: "length ?idx = length (flat_label inp)" "length ?idx = length (flat_mask ?self inp)"
    using assms(1) by (simp_all add: length_selected well_shaped_lengths)
  have rl: "\<forall>b < length (flat_label inp). \<forall>c \<in> set (?idx ! b). c < length (flat_label inp ! b)"
    using flat_label_row [OF assms(1)] well_shaped_lengths(2) [OF assms(1)]
    by (intro selected_in_range [OF assms(1,3)]) auto
  have rm: "\<forall>b < length (flat_mask ?self inp). \<forall>c \<in> set (?idx ! b). c < length (flat_mask ?self inp ! b)"
    using flat_mask_row well_shaped_lengths(1) [OF assms(1)]
    by (intro selected_in_range [OF assms(1,3)]) auto
  have a: "\<forall>row \<in> set ?a. \<forall>x \<in> set row. 0 \<le> x \<and> x \<le> 1"
  proof (intro ballI)
    fix row x assume "row \<in> set ?a" and x: "x \<in> set row"
    then obtain row' where row': "row' \<in> set (gathered (flat_label inp) ?idx)"
      and "row = map of_int row'" by auto
    with x obtain z where z: "z \<in> set row'" and xz: "x = of_int z" by auto
    from gathered_entries [OF li(1) rl row' z] flat_label_entries [OF assms(4)]
    have "z = 0 \<or> z = 1" by blast
    then show "0 \<le> x \<and> x \<le> 1" using xz by auto
  qed
  have m: "\<forall>row \<in> set ?m. \<forall>y \<in> set row. 0 \<le> y"
  proof (intro ballI)
    fix row y assume "row \<in> set ?m" and "y \<in> set row"
    from gathered_entries [OF li(2) rm this] flat_mask_entries
    have "y = 0 \<or> y = 1" by blast
    then show "0 \<le> y" by auto
  qed
  have key: "key_metric ?self = ''ACC''" by (simp add: init_def)
  note acc = accuracy_bounds [OF a m]
  show ?thesis
    using flat_tensors_well_shaped [OF assms(1,2)] top_l_over_5_well_shaped [OF assms(1,3)]
      loss_function_well_shaped [OF assms(1,2,3)] acc
    by (auto simp: key accuracy_def)
qed

theorem accuracy_in_unit_interval_witness:
  "well_shaped scenario_batch scenario_outputs \<and>
   in_int32 (min_residue_distance (init None)) \<and>
   selectable scenario_batch \<and> binary_labels scenario_batch \<and>
   (\<exists>mask' label pred indices l5_labels l5_mask loss metrics.
      flat_tensors (init None) scenario_batch scenario_outputs = Inr (mask', label, pred) \<and>
      top_l_over_5 scenario_batch mask' label pred = Inr (indices, l5_labels, l5_mask) \<and>
      loss_function (init None) scenario_batch scenario_outputs = Inr (loss, metrics) \<and>
      metrics ''ACC'' =
        Some (reduce_sum (map2 (map2 (*)) l5_labels l5_mask) / (reduce_sum l5_mask + 1 / 10 ^ 8)) \<and>
      0 < reduce_sum l5_mask + 1 / 10 ^ 8 \<and>
      0 \<le> the (metrics ''ACC'') \<and> the (metrics ''ACC'') \<le> 1 \<and>
      (0 < reduce_sum l5_mask \<or> the (metrics ''ACC'') = 0))"
  using accuracy_in_unit_interval
    [OF scenario_well_shaped default_distance scenario_selectable scenario_binary]
    scenario_well_shaped default_distance scenario_selectable scenario_binary
  by blast

text \<open>Positions of the flattened tensors, and weights that are \<open>0\<close> or \<open>1\<close>.\<close>

lemma concat_nth_uniform:
  "\<forall>r \<in> set m. length r = n \<Longrightarrow> i < length m \<Longrightarrow> j < n \<Longrightarrow>
     concat m ! (i * n + j) = m ! i ! j"
proof (induction m arbitrary: i)
  case Nil
  then show ?case by simp
next
  case (Cons r m)
  show ?case
  proof (cases i)
    case 0
    with Cons.prems show ?thesis by (simp add: nth_append)
  next
    case (Suc i')
    have "concat (r # m) ! (i * n + j) = concat m ! (i' * n + j)"
      using Cons.prems Suc by (simp add: nth_append)
    also have "\<dots> = m ! i' ! j"
      using Cons.prems Suc by (intro Cons.IH) auto
    finally show ?thesis using Suc by simp
  qed
qed

lemma flat_position:
  fixes i j n :: nat
  assumes "i < n" and "j < n"
  shows "i * n + j < n * n"
proof -
  have "i * n + j < i * n + n" using assms(2) by simp
  also have "\<dots> = Suc i * n" by simp
  also have "\<dots> \<le> n * n" using assms(1) by (intro mult_le_mono1) simp
  finally show ?thesis .
qed

lemma flat_mask_nth:
  assumes "b < length (valid_mask inp)" and "i < dim1 (primary inp)" and "j < dim1 (primary inp)"
  shows "flat_mask self inp ! b ! (i * dim1 (primary inp) + j) =
           of_bool (valid_mask inp ! b ! i \<and> valid_mask inp ! b ! j \<and>
                    min_residue_distance self \<le> \<bar>int j - int i\<bar>)"
proof -
  let ?n = "dim1 (primary inp)"
  let ?m = "pair_mask (min_residue_distance self) ?n (valid_mask inp ! b)"
  have rows: "\<forall>r \<in> set ?m. length r = ?n" by (auto simp: pair_mask_def)
  have pos: "i * ?n + j < length (concat ?m)"
    using flat_position [OF assms(2,3)] by (simp add: length_concat_pair_mask)
  have "flat_mask self inp ! b ! (i * ?n + j) = of_bool (concat ?m ! (i * ?n + j))"
    using assms(1) pos by (simp add: flat_mask_def)
  also have "concat ?m ! (i * ?n + j) = ?m ! i ! j"
    using rows assms(2,3) by (intro concat_nth_uniform) simp_all
  finally show ?thesis using assms(2,3) by (simp add: pair_mask_nth)
qed

lemma weighted_losses_nth:
  assumes "b < length z" "b < length x" "b < length w"
    and "p < length (z ! b)" "p < length (x ! b)" "p < length (w ! b)"
  shows "weighted_losses z x w ! b ! p =
           sigmoid_cross_entropy_with_logits (of_int (z ! b ! p)) (x ! b ! p) * w ! b ! p"
  using assms by (simp add: weighted_losses_def)

lemma count_nonzero_binary:
  fixes r :: "real list"
  shows "\<forall>x \<in> set r. x = 0 \<or> x = 1 \<Longrightarrow> real (length (filter (\<lambda>x. x \<noteq> 0) r)) = sum_list r"
  by (induction r) auto

lemma num_present_binary:
  "\<forall>row \<in> set w. \<forall>x \<in> set row. x = 0 \<or> x = 1 \<Longrightarrow> real (num_present w) = reduce_sum w"
proof (induction w)
  case Nil
  then show ?case by (simp add: num_present_def reduce_sum_def)
next
  case (Cons r w)
  have "real (length (filter (\<lambda>x. x \<noteq> 0) r)) = sum_list r"
    using Cons.prems by (intro count_nonzero_binary) simp
  moreover have "real (num_present w) = reduce_sum w"
    using Cons.prems by (intro Cons.IH) simp
  ultimately show ?case by (simp add: num_present_def reduce_sum_def)
qed

lemma sigmoid_cross_entropy_binary:
  assumes "\<forall>row \<in> set w. \<forall>x \<in> set row. x = 0 \<or> x = 1"
  shows "sigmoid_cross_entropy z x w =
           (if reduce_sum w = 0 then 0 else reduce_sum (weighted_losses z x w) / reduce_sum w)"
proof -
  have "real (num_present w) = reduce_sum w" by (rule num_present_binary [OF assms])
  then show ?thesis
    by (auto simp: sigmoid_cross_entropy_def Let_def)
qed

section \<open>The selection of \<open>top_k\<close> and the mask\<close>

text \<open>
  If every entry of a row at a position that is not \<open>good\<close> lies strictly below every
  entry at a \<open>good\<close> position, and there are at least \<open>k\<close> \<open>good\<close> positions, the
  \<open>k\<close> positions of \<open>top_k\<close> are all \<open>good\<close>.
\<close>

lemma top_k_row_good:
  assumes below: "\<And>i j. i < length row \<Longrightarrow> j < length row \<Longrightarrow> \<not> good i \<Longrightarrow> good j \<Longrightarrow> row ! i < row ! j"
    and enough: "k \<le> card {j. j < length row \<and> good j}"
    and c: "c \<in> set (top_k_row row k)"
  shows "good c"
proof (rule ccontr)
  assume bad: "\<not> good c"
  let ?n = "length row"
  let ?f = "\<lambda>i. - (row ! i)"
  let ?s = "sort_key ?f [0..<?n]"
  have len: "length ?s = ?n" by simp
  have set_s: "set ?s = {0..<?n}" by simp
  have sorted: "sorted (map ?f ?s)" by (rule sorted_sort_key)
  from c have "c \<in> set (take k ?s)" by (simp only: top_k_row_def)
  then obtain p where "p < length (take k ?s)" and "take k ?s ! p = c"
    unfolding in_set_conv_nth by blast
  then have p: "p < k" "p < ?n" and cp: "c = ?s ! p"
    using len by simp_all
  have c_lt: "c < ?n"
    using p(2) set_s len nth_mem [of p ?s] by (simp add: cp)
  have before: "\<exists>q < p. j = ?s ! q" if j: "j < ?n" "good j" for j
  proof -
    from j(1) set_s have "j \<in> set ?s" by simp
    then obtain q where "q < length ?s" and "?s ! q = j"
      unfolding in_set_conv_nth by blast
    then have q: "q < ?n" and jq: "j = ?s ! q"
      using len by simp_all
    have "q < p"
    proof (rule ccontr)
      assume "\<not> q < p"
      then have "p \<le> q" by simp
      then have "map ?f ?s ! p \<le> map ?f ?s ! q"
        using sorted q len by (intro sorted_nth_mono) simp_all
      then have "row ! j \<le> row ! c"
        using p(2) q len by (simp add: cp jq)
      moreover have "row ! c < row ! j"
        by (rule below [OF c_lt j(1) bad j(2)])
      ultimately show False by simp
    qed
    with jq show ?thesis by blast
  qed
  then have "{j. j < ?n \<and> good j} \<subseteq> (\<lambda>q. ?s ! q) ` {..<p}" by auto
  then have "card {j. j < ?n \<and> good j} \<le> card ((\<lambda>q. ?s ! q) ` {..<p})"
    by (intro card_mono) simp_all
  also have "\<dots> \<le> card {..<p}" by (rule card_image_le) simp
  finally have "card {j. j < ?n \<and> good j} \<le> p" by simp
  with enough p(1) show False by simp
qed

lemma card_positions:
  "card {j. j < length ws \<and> P (ws ! j)} = length (filter P ws)"
proof -
  have "{j. j < length ws \<and> P (ws ! j)} = {j. j < length ws \<and> P (ws ! j)}" ..
  then show ?thesis by (simp add: length_filter_conv_card)
qed

lemma separated_nth:
  assumes "separated preds weights"
    and "i < length preds" "i < length weights" "j < length preds" "j < length weights"
    and "weights ! i = 0" "weights ! j \<noteq> 0"
  shows "preds ! i - 1000 < preds ! j"
proof -
  have "(preds ! i, weights ! i) \<in> set (zip preds weights)"
    using assms(2,3) by (metis in_set_zip fst_conv snd_conv)
  moreover have "(preds ! j, weights ! j) \<in> set (zip preds weights)"
    using assms(4,5) by (metis in_set_zip fst_conv snd_conv)
  ultimately show ?thesis
    using assms(1,6,7) unfolding separated_def list_all_iff by fastforce
qed

lemma penalised_entry:
  assumes "b < length x" "b < length w" "i < length (x ! b)" "i < length (w ! b)"
  shows "penalised x w ! b ! i = x ! b ! i - 1000 * (1 - w ! b ! i)"
  using assms by (simp add: penalised_nth)

lemma gathered_nth:
  assumes "b < length t" "b < length idx" "c < length (idx ! b)"
  shows "gathered t idx ! b ! c = t ! b ! (idx ! b ! c)"
  using assms by (simp add: gathered_def)


lemma short_confident_shape: "well_shaped short_batch confident_outputs"
  by code_simp

lemma short_modest_shape: "well_shaped short_batch modest_outputs"
  by code_simp

lemma short_selectable: "selectable short_batch"
  by code_simp

lemma short_confident_flat:
  "flat_tensors (init None) short_batch confident_outputs =
     Inr (short_mask, short_label, confident_pred)"
  by code_simp

lemma short_modest_flat:
  "flat_tensors (init None) short_batch modest_outputs = Inr (short_mask, short_label, modest_pred)"
  by code_simp

lemma short_enough: "nat (l_over_5 short_batch) \<le> unmasked (short_mask ! 0)"
  by code_simp


lemma short_separated: "separated (modest_pred ! 0) (short_mask ! 0)"
  by code_simp

text \<open>
  C3, as the code has it. The scores are \<open>prediction - 1000 * (1 - mask)\<close>, so a
  masked-out pair is kept out of the selection only while its prediction is less than
  \<open>1000\<close> above the predictions of the pairs that are not masked out. On a well-shaped
  batch, for an example with at least \<open>k\<close> pairs that are not masked out and with that
  separation, every one of the \<open>k\<close> selected pairs has mask weight \<open>1\<close>.
\<close>

theorem top_k_avoids_masked:
  assumes ws: "well_shaped inp out" and int32: "in_int32 (min_residue_distance self)"
    and sel: "selectable inp"
    and flat: "flat_tensors self inp out = Inr (mask', label, pred)"
    and b: "b < length (primary inp)"
    and enough: "nat (l_over_5 inp) \<le> unmasked (mask' ! b)"
    and sep: "separated (pred ! b) (mask' ! b)"
    and c: "c < nat (l_over_5 inp)"
  shows "\<exists>indices l5_labels l5_mask.
           top_l_over_5 inp mask' label pred = Inr (indices, l5_labels, l5_mask) \<and>
           mask' ! b ! (indices ! b ! c) = 1 \<and> l5_mask ! b ! c = 1"
proof -
  let ?N = "dim1 (primary inp) * dim1 (primary inp)"
  let ?k = "nat (l_over_5 inp)"
  let ?idx = "selected self inp out"
  from flat flat_tensors_well_shaped [OF ws int32]
  have eq: "mask' = flat_mask self inp" "label = flat_label inp" "pred = flat_pred out"
    by simp_all
  have bw: "b < length mask'" and bx: "b < length pred" and bi: "b < length ?idx"
    using ws b by (simp_all add: eq well_shaped_lengths length_selected)
  have lw: "length (mask' ! b) = ?N"
    using flat_mask_row [OF nth_mem] bw unfolding eq by blast
  have lx: "length (pred ! b) = ?N"
    using flat_pred_row [OF ws nth_mem] bx unfolding eq by blast
  let ?row = "penalised pred mask' ! b"
  have lrow: "length ?row = ?N"
    using bw bx lw lx by (simp add: penalised_nth)
  have binary: "mask' ! b ! i = 0 \<or> mask' ! b ! i = 1" if "i < ?N" for i
  proof -
    have "mask' ! b ! i \<in> set (mask' ! b)" "mask' ! b \<in> set mask'"
      using that lw bw by simp_all
    then show ?thesis using flat_mask_entries unfolding eq by blast
  qed
  have below: "?row ! i < ?row ! j"
    if "i < length ?row" "j < length ?row" "\<not> mask' ! b ! i \<noteq> 0" "mask' ! b ! j \<noteq> 0" for i j
  proof -
    have i: "i < ?N" and j: "j < ?N" using that(1,2) lrow by simp_all
    have wi: "mask' ! b ! i = 0" using that(3) by simp
    have wj: "mask' ! b ! j = 1" using binary [OF j] that(4) by simp
    have "pred ! b ! i - 1000 < pred ! b ! j"
      using sep i j lx lw wi that(4) by (intro separated_nth) simp_all
    moreover have "?row ! i = pred ! b ! i - 1000"
      using penalised_entry [OF bx bw, of i] i lx lw wi by simp
    moreover have "?row ! j = pred ! b ! j"
      using penalised_entry [OF bx bw, of j] j lx lw wj by simp
    ultimately show ?thesis by simp
  qed
  have "card {j. j < length ?row \<and> mask' ! b ! j \<noteq> 0} = length (filter (\<lambda>m. m \<noteq> 0) (mask' ! b))"
    using card_positions [of "mask' ! b" "\<lambda>m. m \<noteq> 0"] lrow lw by simp
  with enough have many: "?k \<le> card {j. j < length ?row \<and> mask' ! b ! j \<noteq> 0}"
    by (simp add: unmasked_def)
  have row_b: "?idx ! b = top_k_row ?row ?k"
    using bw bx by (simp add: selected_def eq)
  have lidx: "length (?idx ! b) = ?k"
    using selected_row(1) [OF ws sel nth_mem [OF bi]] .
  then have "?idx ! b ! c \<in> set (top_k_row ?row ?k)"
    using c row_b nth_mem [of c "?idx ! b"] by simp
  from top_k_row_good [of ?row "\<lambda>i. mask' ! b ! i \<noteq> 0", OF below many this]
  have nz: "mask' ! b ! (?idx ! b ! c) \<noteq> 0" .
  have "?idx ! b ! c < ?N"
    using selected_row(3) [OF ws sel nth_mem [OF bi]] c lidx nth_mem [of c "?idx ! b"] by simp
  from binary [OF this] nz have one: "mask' ! b ! (?idx ! b ! c) = 1" by simp
  have g: "gathered mask' ?idx ! b ! c = mask' ! b ! (?idx ! b ! c)"
    using bw bi c lidx by (intro gathered_nth) simp_all
  show ?thesis
  proof (intro exI conjI)
    show "top_l_over_5 inp mask' label pred =
            Inr (?idx, map (map of_int) (gathered label ?idx), gathered mask' ?idx)"
      using top_l_over_5_well_shaped [OF ws sel, of self] by (simp only: eq)
    show "mask' ! b ! (?idx ! b ! c) = 1" by (rule one)
    show "gathered mask' ?idx ! b ! c = 1" using g one by simp
  qed
qed

theorem top_k_avoids_masked_witness:
  "well_shaped short_batch modest_outputs \<and>
   in_int32 (min_residue_distance (init None)) \<and>
   selectable short_batch \<and>
   flat_tensors (init None) short_batch modest_outputs = Inr (short_mask, short_label, modest_pred) \<and>
   0 < length (primary short_batch) \<and>
   nat (l_over_5 short_batch) \<le> unmasked (short_mask ! 0) \<and>
   separated (modest_pred ! 0) (short_mask ! 0) \<and>
   0 < nat (l_over_5 short_batch) \<and>
   (\<exists>indices l5_labels l5_mask.
      top_l_over_5 short_batch short_mask short_label modest_pred =
        Inr (indices, l5_labels, l5_mask) \<and>
      short_mask ! 0 ! (indices ! 0 ! 0) = 1 \<and> l5_mask ! 0 ! 0 = 1)"
proof -
  have b: "0 < length (primary short_batch)" by code_simp
  have c: "0 < nat (l_over_5 short_batch)" by code_simp
  from top_k_avoids_masked [OF short_modest_shape default_distance short_selectable
      short_modest_flat b short_enough short_separated c]
  show ?thesis
    using short_modest_shape default_distance short_selectable short_modest_flat b
      short_enough short_separated c
    by blast
qed

text \<open>
  Without the separation a masked-out pair is selected: one protein of length \<open>7\<close> with
  the default distance \<open>6\<close> has two pairs that are not masked out and \<open>k = 1\<close>, but the
  diagonal pair \<open>(0, 0)\<close> with logit \<open>2000\<close> scores \<open>1000\<close> and is the one selected.
\<close>

theorem top_k_selects_masked_counterexample:
  "well_shaped short_batch confident_outputs \<and>
   selectable short_batch \<and>
   flat_tensors (init None) short_batch confident_outputs =
     Inr (short_mask, short_label, confident_pred) \<and>
   nat (l_over_5 short_batch) = 1 \<and> unmasked (short_mask ! 0) = 2 \<and>
   top_l_over_5 short_batch short_mask short_label confident_pred = Inr ([[0]], [[0]], [[0]]) \<and>
   short_mask ! 0 ! 0 = 0"
proof -
  have "nat (l_over_5 short_batch) = 1" by code_simp
  moreover have "unmasked (short_mask ! 0) = 2" by code_simp
  moreover have "top_l_over_5 short_batch short_mask short_label confident_pred =
      Inr ([[0]], [[0]], [[0]])" by code_simp
  moreover have "short_mask ! 0 ! 0 = 0" by code_simp
  ultimately show ?thesis
    using short_confident_shape short_selectable short_confident_flat by simp
qed

section \<open>The number of selected pairs\<close>

text \<open>\<open>tf.reduce_max\<close> of a batch that is not empty is the greatest of its entries.\<close>

lemma reduce_max_Max:
  assumes "xs \<noteq> []"
  shows "reduce_max xs = Max (set xs)"
proof (cases xs)
  case Nil
  with assms show ?thesis by simp
next
  case (Cons x ys)
  have "Max (set (x # ys)) = fold max ys x" by (rule Max.set_eq_fold)
  then show ?thesis by (simp add: Cons reduce_max_def)
qed

lemma selectable_nonempty: "selectable inp \<Longrightarrow> protein_length inp \<noteq> []"
  by (auto simp: selectable_def l_over_5_def reduce_max_def)

lemma scenario_max: "nat (Max (set (protein_length scenario_batch)) div 5) = 4"
  by (simp add: scenario_batch_def)

text \<open>
  C2. On a well-shaped batch for which \<open>top_k\<close> can be asked, \<open>protein_length\<close> is not
  empty and \<open>loss_function\<close> selects for every example \<open>b\<close> exactly \<open>k\<close> distinct pairs,
  where \<open>k\<close> is the greatest entry of \<open>protein_length\<close> divided by \<open>5\<close> and rounded down,
  whatever the length of that example, and gathers that many labels and mask weights.
  For \<open>protein_length = [10, 20]\<close> this is \<open>4\<close> pairs for either example.
\<close>

theorem pairs_selected_per_example:
  assumes "well_shaped inp out" and "in_int32 (min_residue_distance self)"
    and "selectable inp" and "b < length (primary inp)"
  shows "\<exists>mask' label pred indices l5_labels l5_mask.
           protein_length inp \<noteq> [] \<and>
           flat_tensors self inp out = Inr (mask', label, pred) \<and>
           top_l_over_5 inp mask' label pred = Inr (indices, l5_labels, l5_mask) \<and>
           length indices = length (primary inp) \<and>
           length (indices ! b) = nat (Max (set (protein_length inp)) div 5) \<and>
           distinct (indices ! b) \<and>
           length (l5_labels ! b) = nat (Max (set (protein_length inp)) div 5) \<and>
           length (l5_mask ! b) = nat (Max (set (protein_length inp)) div 5)"
proof -
  let ?idx = "selected self inp out"
  have ne: "protein_length inp \<noteq> []" by (rule selectable_nonempty [OF assms(3)])
  then have k: "l_over_5 inp = Max (set (protein_length inp)) div 5"
    by (simp add: l_over_5_def reduce_max_Max)
  have b: "b < length ?idx"
    using assms(1,4) by (simp add: length_selected)
  have len: "length (?idx ! b) = nat (l_over_5 inp)" and dist: "distinct (?idx ! b)"
    using selected_row(1,2) [OF assms(1,3) nth_mem [OF b]] by simp_all
  have bl: "b < length (flat_label inp)" and bm: "b < length (flat_mask self inp)"
    using assms(1,4) by (simp_all add: well_shaped_lengths)
  have "length (map (map of_int) (gathered (flat_label inp) ?idx) ! b) = nat (l_over_5 inp)"
    using b bl len by (simp add: gathered_def)
  moreover have "length (gathered (flat_mask self inp) ?idx ! b) = nat (l_over_5 inp)"
    using b bm len by (simp add: gathered_def)
  ultimately show ?thesis
    using flat_tensors_well_shaped [OF assms(1,2)] top_l_over_5_well_shaped [OF assms(1,3)]
      length_selected [OF assms(1)] len dist ne
    by (simp add: k)
qed

theorem pairs_selected_per_example_witness:
  "well_shaped scenario_batch scenario_outputs \<and>
   in_int32 (min_residue_distance (init None)) \<and>
   selectable scenario_batch \<and>
   protein_length scenario_batch = [10, 20] \<and>
   0 < length (primary scenario_batch) \<and> 1 < length (primary scenario_batch) \<and>
   nat (Max (set (protein_length scenario_batch)) div 5) = 4 \<and>
   (\<exists>mask' label pred indices l5_labels l5_mask.
      flat_tensors (init None) scenario_batch scenario_outputs = Inr (mask', label, pred) \<and>
      top_l_over_5 scenario_batch mask' label pred = Inr (indices, l5_labels, l5_mask) \<and>
      length indices = 2 \<and>
      length (indices ! 0) = 4 \<and> distinct (indices ! 0) \<and>
      length (l5_labels ! 0) = 4 \<and> length (l5_mask ! 0) = 4 \<and>
      length (indices ! 1) = 4 \<and> distinct (indices ! 1) \<and>
      length (l5_labels ! 1) = 4 \<and> length (l5_mask ! 1) = 4)"
proof -
  have b0: "0 < length (primary scenario_batch)" and b1: "1 < length (primary scenario_batch)"
    and two: "length (primary scenario_batch) = 2"
    by (simp_all add: scenario_batch_def)
  have pl: "protein_length scenario_batch = [10, 20]" by (simp add: scenario_batch_def)
  from pairs_selected_per_example [OF scenario_well_shaped default_distance scenario_selectable b0]
  obtain mask' label pred indices l5_labels l5_mask where
    flat: "flat_tensors (init None) scenario_batch scenario_outputs = Inr (mask', label, pred)"
    and top: "top_l_over_5 scenario_batch mask' label pred = Inr (indices, l5_labels, l5_mask)"
    and first: "length indices = 2" "length (indices ! 0) = 4" "distinct (indices ! 0)"
      "length (l5_labels ! 0) = 4" "length (l5_mask ! 0) = 4"
    unfolding scenario_max two by blast
  from pairs_selected_per_example [OF scenario_well_shaped default_distance scenario_selectable b1]
  obtain mask2 label2 pred2 indices2 labels2 weights2 where
    flat2: "flat_tensors (init None) scenario_batch scenario_outputs = Inr (mask2, label2, pred2)"
    and top2: "top_l_over_5 scenario_batch mask2 label2 pred2 = Inr (indices2, labels2, weights2)"
    and snd2: "length (indices2 ! 1) = 4" "distinct (indices2 ! 1)"
      "length (labels2 ! 1) = 4" "length (weights2 ! 1) = 4"
    unfolding scenario_max by blast
  from flat flat2 have "mask2 = mask'" "label2 = label" "pred2 = pred" by simp_all
  with top top2 have "indices2 = indices" "labels2 = l5_labels" "weights2 = l5_mask" by simp_all
  with snd2 have second: "length (indices ! 1) = 4" "distinct (indices ! 1)"
      "length (l5_labels ! 1) = 4" "length (l5_mask ! 1) = 4"
    by simp_all
  show ?thesis
    using scenario_well_shaped default_distance scenario_selectable pl b0 b1 scenario_max
      flat top first second
    by blast
qed

section \<open>The loss as a weighted mean\<close>

text \<open>
  The cross-entropy of one pair, which the code computes in the numerically stable form
  \<open>max(x, 0) - x * z + log(1 + exp(-|x|))\<close>, is the binary cross-entropy
  \<open>-(z * log p + (1 - z) * log (1 - p))\<close> of the label \<open>z\<close> and the probability
  \<open>p = 1 / (1 + exp(-x))\<close> of the logit \<open>x\<close>.
\<close>

lemma ln_one_plus_exp: "ln (1 + exp x) = x + ln (1 + exp (- x))" for x :: real
proof -
  have "1 + exp x = exp x * (1 + exp (- x))"
    by (simp add: algebra_simps exp_minus)
  then have "ln (1 + exp x) = ln (exp x * (1 + exp (- x)))" by simp
  also have "\<dots> = ln (exp x) + ln (1 + exp (- x))"
    by (intro ln_mult_pos) (simp_all add: add_pos_pos)
  finally show ?thesis by simp
qed

lemma cross_entropy_of_sigmoid:
  "sigmoid_cross_entropy_with_logits z x =
     - (z * ln (1 / (1 + exp (- x))) + (1 - z) * ln (1 - 1 / (1 + exp (- x))))"
proof -
  let ?u = "1 + exp (- x)"
  have u: "0 < ?u" by (simp add: add_pos_pos)
  have a: "ln (1 / ?u) = - ln ?u"
    using u ln_divide_pos [of 1 ?u] by simp
  have "1 - 1 / ?u = exp (- x) / ?u"
    using u by (simp add: field_simps)
  then have "ln (1 - 1 / ?u) = ln (exp (- x) / ?u)" by simp
  also have "\<dots> = ln (exp (- x)) - ln ?u"
    using u by (intro ln_divide_pos) simp_all
  finally have b: "ln (1 - 1 / ?u) = - x - ln ?u" by simp
  have rhs: "- (z * ln (1 / ?u) + (1 - z) * ln (1 - 1 / ?u)) = x - x * z + ln ?u"
    unfolding a b by (simp add: algebra_simps)
  have lhs: "sigmoid_cross_entropy_with_logits z x = x - x * z + ln ?u"
  proof (cases "0 \<le> x")
    case True
    then show ?thesis by (simp add: sigmoid_cross_entropy_with_logits_def)
  next
    case False
    then have "sigmoid_cross_entropy_with_logits z x = - x * z + ln (1 + exp x)"
      by (simp add: sigmoid_cross_entropy_with_logits_def max_def)
    with ln_one_plus_exp [of x] show ?thesis by simp
  qed
  show ?thesis by (simp only: lhs rhs)
qed

text \<open>Sums over a flattened tensor as sums over examples and pairs of positions.\<close>

lemma reduce_sum_nth: "reduce_sum t = (\<Sum>b<length t. sum_list (t ! b))"
proof -
  have "sum_list (map sum_list t) = (\<Sum>b = 0..<length (map sum_list t). map sum_list t ! b)"
    by (rule sum_list_sum_nth)
  also have "\<dots> = (\<Sum>b<length t. sum_list (t ! b))"
    by (simp add: atLeast0LessThan)
  finally show ?thesis by (simp add: reduce_sum_def)
qed

lemma sum_square:
  fixes f :: "nat \<Rightarrow> real"
  shows "(\<Sum>p<n * n. f p) = (\<Sum>i<n. \<Sum>j<n. f (i * n + j))"
proof -
  have "(\<Sum>i<n. \<Sum>j<n. f (i * n + j)) = (\<Sum>i<n. sum f {i * n..<i * n + n})"
  proof (rule sum.cong [OF refl])
    fix i
    have "sum f {0 + i * n..<n + i * n} = (\<Sum>j = 0..<n. f (j + i * n))"
      by (rule sum.shift_bounds_nat_ivl)
    then show "(\<Sum>j<n. f (i * n + j)) = sum f {i * n..<i * n + n}"
      by (simp add: atLeast0LessThan add.commute)
  qed
  also have "\<dots> = sum f {..<n * n}" by (rule sum.nat_group)
  finally show ?thesis by simp
qed

lemma sum_list_square:
  fixes row :: "real list"
  assumes "length row = n * n"
  shows "sum_list row = (\<Sum>i<n. \<Sum>j<n. row ! (i * n + j))"
proof -
  have "sum_list row = (\<Sum>p = 0..<length row. row ! p)" by (rule sum_list_sum_nth)
  also have "\<dots> = (\<Sum>p<n * n. row ! p)" by (simp add: assms atLeast0LessThan)
  also have "\<dots> = (\<Sum>i<n. \<Sum>j<n. row ! (i * n + j))" by (rule sum_square)
  finally show ?thesis .
qed

lemma flat_label_nth:
  assumes "well_shaped inp out" and "b < length (primary inp)"
    and "i < dim1 (primary inp)" and "j < dim1 (primary inp)"
  shows "flat_label inp ! b ! (i * dim1 (primary inp) + j) = contact_map inp ! b ! i ! j"
proof -
  let ?n = "dim1 (primary inp)"
  have cube: "cube (length (primary inp)) ?n (contact_map inp)"
    using assms(1) by (simp add: well_shaped_def)
  then have b: "b < length (contact_map inp)" using assms(2) by (simp add: cube_def)
  then have m: "contact_map inp ! b \<in> set (contact_map inp)" by simp
  have len: "length (contact_map inp ! b) = ?n"
    and rows: "\<forall>r \<in> set (contact_map inp ! b). length r = ?n"
    using cube m by (auto simp: cube_def list_all_iff)
  have "flat_label inp ! b ! (i * ?n + j) = concat (contact_map inp ! b) ! (i * ?n + j)"
    using b by (simp add: flat_label_def)
  also have "\<dots> = contact_map inp ! b ! i ! j"
    using rows assms(3,4) len by (intro concat_nth_uniform) simp_all
  finally show ?thesis .
qed

lemma flat_pred_nth:
  assumes "well_shaped inp out" and "b < length (primary inp)"
    and "i < dim1 (primary inp)" and "j < dim1 (primary inp)"
  shows "flat_pred out ! b ! (i * dim1 (primary inp) + j) = contact_prob out ! b ! i ! j ! 0"
proof -
  let ?n = "dim1 (primary inp)"
  let ?m = "contact_prob out ! b"
  have cube: "cube (length (primary inp)) ?n (contact_prob out)"
    and one: "list_all (list_all (list_all (\<lambda>c. length c = 1))) (contact_prob out)"
    using assms(1) by (simp_all add: well_shaped_def)
  then have b: "b < length (contact_prob out)" using assms(2) by (simp add: cube_def)
  then have m: "?m \<in> set (contact_prob out)" by simp
  have len: "length ?m = ?n" and rows: "\<forall>r \<in> set ?m. length r = ?n"
    using cube m by (auto simp: cube_def list_all_iff)
  have i: "i < length ?m" using assms(3) len by simp
  then have r: "?m ! i \<in> set ?m" by simp
  then have j: "j < length (?m ! i)" using rows assms(4) by simp
  then have "?m ! i ! j \<in> set (?m ! i)" by simp
  with one m r have "length (?m ! i ! j) = 1"
    unfolding list_all_iff by blast
  then have hd: "hd (?m ! i ! j) = ?m ! i ! j ! 0"
    by (cases "?m ! i ! j") simp_all
  have "flat_pred out ! b ! (i * ?n + j) = concat (map (map hd) ?m) ! (i * ?n + j)"
    using b by (simp add: flat_pred_def)
  also have "\<dots> = map (map hd) ?m ! i ! j"
    using rows assms(4) i by (intro concat_nth_uniform) simp_all
  also have "\<dots> = hd (?m ! i ! j)" using i j by simp
  finally show ?thesis by (simp only: hd)
qed

lemma flat_mask_pair:
  assumes "b < length (valid_mask inp)" and "i < dim1 (primary inp)" and "j < dim1 (primary inp)"
  shows "flat_mask self inp ! b ! (i * dim1 (primary inp) + j) =
           of_bool (pair_mask (min_residue_distance self) (dim1 (primary inp)) (valid_mask inp ! b) ! i ! j)"
  using flat_mask_nth [OF assms, of self] pair_mask_nth [OF assms(2,3)] by simp

lemma length_weighted_losses:
  "length (weighted_losses z x w) = min (min (length z) (length x)) (length w)"
  by (simp add: weighted_losses_def)

lemma length_weighted_losses_row:
  assumes "b < length z" "b < length x" "b < length w"
  shows "length (weighted_losses z x w ! b) =
           min (min (length (z ! b)) (length (x ! b))) (length (w ! b))"
  using assms by (simp add: weighted_losses_def)

text \<open>The two sums of the loss, written over examples and pairs of positions.\<close>

lemma loss_sums:
  assumes ws: "well_shaped inp out"
  shows "reduce_sum (weighted_losses (flat_label inp) (flat_pred out) (flat_mask self inp)) =
           (\<Sum>b<length (primary inp). \<Sum>i<dim1 (primary inp). \<Sum>j<dim1 (primary inp).
              sigmoid_cross_entropy_with_logits (of_int (contact_map inp ! b ! i ! j))
                (contact_prob out ! b ! i ! j ! 0) *
              of_bool (pair_mask (min_residue_distance self) (dim1 (primary inp))
                        (valid_mask inp ! b) ! i ! j))"
    and "reduce_sum (flat_mask self inp) =
           (\<Sum>b<length (primary inp). \<Sum>i<dim1 (primary inp). \<Sum>j<dim1 (primary inp).
              of_bool (pair_mask (min_residue_distance self) (dim1 (primary inp))
                        (valid_mask inp ! b) ! i ! j))"
proof -
  let ?B = "length (primary inp)" and ?n = "dim1 (primary inp)"
  let ?w = "flat_mask self inp" and ?z = "flat_label inp" and ?x = "flat_pred out"
  let ?wl = "weighted_losses ?z ?x ?w"
  let ?pm = "\<lambda>b. pair_mask (min_residue_distance self) ?n (valid_mask inp ! b)"
  have len: "length ?w = ?B" "length ?z = ?B" "length ?x = ?B"
    by (simp_all add: well_shaped_lengths [OF ws])
  have vm: "length (valid_mask inp) = ?B"
    using ws by (simp add: well_shaped_def same_shape_def)
  have rows: "length (?w ! b) = ?n * ?n" "length (?z ! b) = ?n * ?n" "length (?x ! b) = ?n * ?n"
    if "b < ?B" for b
    using that len flat_mask_row [OF nth_mem, of b self inp]
      flat_label_row [OF ws nth_mem, of b] flat_pred_row [OF ws nth_mem, of b]
    by simp_all
  have "reduce_sum ?wl = (\<Sum>b<?B. sum_list (?wl ! b))"
    by (simp add: reduce_sum_nth length_weighted_losses len)
  also have "\<dots> = (\<Sum>b<?B. \<Sum>i<?n. \<Sum>j<?n.
      sigmoid_cross_entropy_with_logits (of_int (contact_map inp ! b ! i ! j))
        (contact_prob out ! b ! i ! j ! 0) * of_bool (?pm b ! i ! j))"
  proof (rule sum.cong [OF refl])
    fix b assume "b \<in> {..<?B}"
    then have b: "b < ?B" by simp
    have bl: "b < length ?z" "b < length ?x" "b < length ?w" using b len by simp_all
    have lr: "length (?wl ! b) = ?n * ?n"
      using length_weighted_losses_row [OF bl] rows [OF b] by simp
    have "sum_list (?wl ! b) = (\<Sum>i<?n. \<Sum>j<?n. ?wl ! b ! (i * ?n + j))"
      by (rule sum_list_square [OF lr])
    also have "\<dots> = (\<Sum>i<?n. \<Sum>j<?n.
        sigmoid_cross_entropy_with_logits (of_int (contact_map inp ! b ! i ! j))
          (contact_prob out ! b ! i ! j ! 0) * of_bool (?pm b ! i ! j))"
    proof (intro sum.cong refl)
      fix i j assume "i \<in> {..<?n}" "j \<in> {..<?n}"
      then have i: "i < ?n" and j: "j < ?n" by simp_all
      have p: "i * ?n + j < ?n * ?n" by (rule flat_position [OF i j])
      have "?wl ! b ! (i * ?n + j) =
              sigmoid_cross_entropy_with_logits (of_int (?z ! b ! (i * ?n + j)))
                (?x ! b ! (i * ?n + j)) * ?w ! b ! (i * ?n + j)"
        using bl p rows [OF b] by (intro weighted_losses_nth) simp_all
      also have "?z ! b ! (i * ?n + j) = contact_map inp ! b ! i ! j"
        by (rule flat_label_nth [OF ws b i j])
      also have "?x ! b ! (i * ?n + j) = contact_prob out ! b ! i ! j ! 0"
        by (rule flat_pred_nth [OF ws b i j])
      also have "?w ! b ! (i * ?n + j) = of_bool (?pm b ! i ! j)"
        using b vm by (intro flat_mask_pair [OF _ i j]) simp
      finally show "?wl ! b ! (i * ?n + j) =
          sigmoid_cross_entropy_with_logits (of_int (contact_map inp ! b ! i ! j))
            (contact_prob out ! b ! i ! j ! 0) * of_bool (?pm b ! i ! j)" .
    qed
    finally show "sum_list (?wl ! b) = (\<Sum>i<?n. \<Sum>j<?n.
        sigmoid_cross_entropy_with_logits (of_int (contact_map inp ! b ! i ! j))
          (contact_prob out ! b ! i ! j ! 0) * of_bool (?pm b ! i ! j))" .
  qed
  finally show "reduce_sum ?wl = (\<Sum>b<?B. \<Sum>i<?n. \<Sum>j<?n.
      sigmoid_cross_entropy_with_logits (of_int (contact_map inp ! b ! i ! j))
        (contact_prob out ! b ! i ! j ! 0) * of_bool (?pm b ! i ! j))" .
  have "reduce_sum ?w = (\<Sum>b<?B. sum_list (?w ! b))"
    by (simp add: reduce_sum_nth len)
  also have "\<dots> = (\<Sum>b<?B. \<Sum>i<?n. \<Sum>j<?n. of_bool (?pm b ! i ! j))"
  proof (rule sum.cong [OF refl])
    fix b assume "b \<in> {..<?B}"
    then have b: "b < ?B" by simp
    have "sum_list (?w ! b) = (\<Sum>i<?n. \<Sum>j<?n. ?w ! b ! (i * ?n + j))"
      by (rule sum_list_square [OF rows(1) [OF b]])
    also have "\<dots> = (\<Sum>i<?n. \<Sum>j<?n. of_bool (?pm b ! i ! j))"
    proof (intro sum.cong refl)
      fix i j assume "i \<in> {..<?n}" "j \<in> {..<?n}"
      then have i: "i < ?n" and j: "j < ?n" by simp_all
      show "?w ! b ! (i * ?n + j) = of_bool (?pm b ! i ! j)"
        using b vm by (intro flat_mask_pair [OF _ i j]) simp
    qed
    finally show "sum_list (?w ! b) = (\<Sum>i<?n. \<Sum>j<?n. of_bool (?pm b ! i ! j))" .
  qed
  finally show "reduce_sum ?w = (\<Sum>b<?B. \<Sum>i<?n. \<Sum>j<?n. of_bool (?pm b ! i ! j))" .
qed

lemma scenario_weights: "reduce_sum (flat_mask (init None) scenario_batch) = 230"
  by code_simp

lemma scenario_examples: "length (primary scenario_batch) = 2"
  by (simp add: scenario_batch_def)

lemma ln_half: "ln (1 - 1 / (1 + exp (- (0 :: real)))) = - ln 2"
proof -
  have "1 - 1 / (1 + exp (- (0 :: real))) = 1 / 2" by simp
  then show ?thesis using ln_divide_pos [of 1 "2 :: real"] by simp
qed

text \<open>
  C1. On a well-shaped batch the loss that \<open>loss_function\<close> returns is a weighted mean
  over all examples \<open>b\<close> and pairs \<open>(i, j)\<close>, with the mask \<open>m\<close> of \<open>get_mask\<close> as the
  weights: the sum of the binary cross-entropy of the label \<open>contact_map[b, i, j]\<close> and
  the logit \<open>contact_prob[b, i, j, 0]\<close> times the weight \<open>1\<close> or \<open>0\<close> of the pair, divided
  by the sum of the weights, and \<open>0\<close> when every pair is masked out. A pair of weight
  \<open>0\<close> has the summand \<open>0\<close> in both sums. For the scenario batch, whose labels and logits
  are all \<open>0\<close>, the mask has 230 pairs and the loss is \<open>ln 2\<close>.
\<close>

theorem loss_is_masked_weighted_mean:
  assumes "well_shaped inp out" and "in_int32 (min_residue_distance self)"
    and "selectable inp"
  shows "\<exists>m loss metrics.
           get_mask self inp = Inr m \<and>
           loss_function self inp out = Inr (loss, metrics) \<and>
           loss =
             (if (\<Sum>b<length (primary inp). \<Sum>i<dim1 (primary inp). \<Sum>j<dim1 (primary inp).
                    of_bool (m ! b ! i ! j)) = (0 :: real)
              then 0
              else (\<Sum>b<length (primary inp). \<Sum>i<dim1 (primary inp). \<Sum>j<dim1 (primary inp).
                      - (of_int (contact_map inp ! b ! i ! j) *
                           ln (1 / (1 + exp (- (contact_prob out ! b ! i ! j ! 0)))) +
                         (1 - of_int (contact_map inp ! b ! i ! j)) *
                           ln (1 - 1 / (1 + exp (- (contact_prob out ! b ! i ! j ! 0))))) *
                      of_bool (m ! b ! i ! j)) /
                   (\<Sum>b<length (primary inp). \<Sum>i<dim1 (primary inp). \<Sum>j<dim1 (primary inp).
                      of_bool (m ! b ! i ! j)))"
proof -
  let ?B = "length (primary inp)" and ?n = "dim1 (primary inp)"
  let ?w = "flat_mask self inp" and ?z = "flat_label inp" and ?x = "flat_pred out"
  let ?m = "map (pair_mask (min_residue_distance self) ?n) (valid_mask inp)"
  let ?pm = "\<lambda>b. pair_mask (min_residue_distance self) ?n (valid_mask inp ! b)"
  have shape: "same_shape (valid_mask inp) (primary inp)"
    using assms(1) by (simp add: well_shaped_def)
  then have vm: "length (valid_mask inp) = ?B" by (simp add: same_shape_def)
  have m: "get_mask self inp = Inr ?m"
    by (rule get_mask_well_shaped [OF shape assms(2)])
  have bin: "\<forall>row \<in> set ?w. \<forall>x \<in> set row. x = 0 \<or> x = 1"
    using flat_mask_entries by blast
  have weights: "(\<Sum>b<?B. \<Sum>i<?n. \<Sum>j<?n. of_bool (?m ! b ! i ! j)) = reduce_sum ?w"
    unfolding loss_sums(2) [OF assms(1)]
    by (intro sum.cong refl) (simp add: vm)
  have losses: "(\<Sum>b<?B. \<Sum>i<?n. \<Sum>j<?n.
        - (of_int (contact_map inp ! b ! i ! j) *
             ln (1 / (1 + exp (- (contact_prob out ! b ! i ! j ! 0)))) +
           (1 - of_int (contact_map inp ! b ! i ! j)) *
             ln (1 - 1 / (1 + exp (- (contact_prob out ! b ! i ! j ! 0))))) *
        of_bool (?m ! b ! i ! j)) = reduce_sum (weighted_losses ?z ?x ?w)"
    unfolding loss_sums(1) [OF assms(1)] cross_entropy_of_sigmoid
    by (intro sum.cong refl) (simp add: vm)
  show ?thesis
  proof (intro exI conjI)
    show "get_mask self inp = Inr ?m" by (rule m)
    show "loss_function self inp out =
            Inr (sigmoid_cross_entropy ?z ?x ?w,
                 Map.empty(key_metric self \<mapsto>
                   accuracy (map (map of_int) (gathered ?z (selected self inp out)))
                     (gathered ?w (selected self inp out))))"
      by (rule loss_function_well_shaped [OF assms])
    show "sigmoid_cross_entropy ?z ?x ?w =
            (if (\<Sum>b<?B. \<Sum>i<?n. \<Sum>j<?n. of_bool (?m ! b ! i ! j)) = (0 :: real)
             then 0
             else (\<Sum>b<?B. \<Sum>i<?n. \<Sum>j<?n.
                     - (of_int (contact_map inp ! b ! i ! j) *
                          ln (1 / (1 + exp (- (contact_prob out ! b ! i ! j ! 0)))) +
                        (1 - of_int (contact_map inp ! b ! i ! j)) *
                          ln (1 - 1 / (1 + exp (- (contact_prob out ! b ! i ! j ! 0))))) *
                     of_bool (?m ! b ! i ! j)) /
                  (\<Sum>b<?B. \<Sum>i<?n. \<Sum>j<?n. of_bool (?m ! b ! i ! j)))"
      unfolding weights losses by (rule sigmoid_cross_entropy_binary [OF bin])
  qed
qed

theorem loss_is_masked_weighted_mean_witness:
  "well_shaped scenario_batch scenario_outputs \<and>
   in_int32 (min_residue_distance (init None)) \<and>
   selectable scenario_batch \<and>
   (\<exists>m loss metrics.
      get_mask (init None) scenario_batch = Inr m \<and>
      loss_function (init None) scenario_batch scenario_outputs = Inr (loss, metrics) \<and>
      (\<Sum>b<2::nat. \<Sum>i<20::nat. \<Sum>j<20::nat. of_bool (m ! b ! i ! j)) = (230 :: real) \<and>
      loss =
        (\<Sum>b<2::nat. \<Sum>i<20::nat. \<Sum>j<20::nat.
           - (of_int (contact_map scenario_batch ! b ! i ! j) *
                ln (1 / (1 + exp (- (contact_prob scenario_outputs ! b ! i ! j ! 0)))) +
              (1 - of_int (contact_map scenario_batch ! b ! i ! j)) *
                ln (1 - 1 / (1 + exp (- (contact_prob scenario_outputs ! b ! i ! j ! 0))))) *
           of_bool (m ! b ! i ! j)) / 230 \<and>
      loss = ln 2)"
proof -
  let ?self = "init None"
  let ?pm = "\<lambda>b. pair_mask (min_residue_distance ?self) 20 (valid_mask scenario_batch ! b)"
  let ?ce = "\<lambda>b i j.
      - (of_int (contact_map scenario_batch ! b ! i ! j) *
           ln (1 / (1 + exp (- (contact_prob scenario_outputs ! b ! i ! j ! 0)))) +
         (1 - of_int (contact_map scenario_batch ! b ! i ! j)) *
           ln (1 - 1 / (1 + exp (- (contact_prob scenario_outputs ! b ! i ! j ! 0)))))"
  from loss_is_masked_weighted_mean [OF scenario_well_shaped default_distance scenario_selectable]
  obtain m loss metrics where
    m: "get_mask ?self scenario_batch = Inr m"
    and lf: "loss_function ?self scenario_batch scenario_outputs = Inr (loss, metrics)"
    and eq: "loss =
      (if (\<Sum>b<2::nat. \<Sum>i<20::nat. \<Sum>j<20::nat. of_bool (m ! b ! i ! j)) = (0 :: real) then 0
       else (\<Sum>b<2::nat. \<Sum>i<20::nat. \<Sum>j<20::nat. ?ce b i j * of_bool (m ! b ! i ! j)) /
            (\<Sum>b<2::nat. \<Sum>i<20::nat. \<Sum>j<20::nat. of_bool (m ! b ! i ! j)))"
    unfolding scenario_examples scenario_width by blast
  have shape: "same_shape (valid_mask scenario_batch) (primary scenario_batch)"
    using scenario_well_shaped by (simp add: well_shaped_def)
  have mm: "m = map (pair_mask (min_residue_distance ?self) 20) (valid_mask scenario_batch)"
    using m get_mask_well_shaped [OF shape default_distance] by (simp add: scenario_width)
  have vm: "length (valid_mask scenario_batch) = 2" by (simp add: scenario_batch_def)
  have "(\<Sum>b<2::nat. \<Sum>i<20::nat. \<Sum>j<20::nat. of_bool (m ! b ! i ! j)) =
        (\<Sum>b<2::nat. \<Sum>i<20::nat. \<Sum>j<20::nat. of_bool (?pm b ! i ! j) :: real)"
    unfolding mm by (intro sum.cong refl) (simp add: vm)
  also have "\<dots> = reduce_sum (flat_mask ?self scenario_batch)"
    using loss_sums(2) [OF scenario_well_shaped, of ?self]
    by (simp only: scenario_examples scenario_width)
  finally have total: "(\<Sum>b<2::nat. \<Sum>i<20::nat. \<Sum>j<20::nat. of_bool (m ! b ! i ! j)) = (230 :: real)"
    by (simp only: scenario_weights)
  have quotient: "loss =
      (\<Sum>b<2::nat. \<Sum>i<20::nat. \<Sum>j<20::nat. ?ce b i j * of_bool (m ! b ! i ! j)) / 230"
    using eq unfolding total by simp
  have "(\<Sum>b<2::nat. \<Sum>i<20::nat. \<Sum>j<20::nat. ?ce b i j * of_bool (m ! b ! i ! j)) =
        (\<Sum>b<2::nat. \<Sum>i<20::nat. \<Sum>j<20::nat. ln 2 * of_bool (m ! b ! i ! j))"
  proof (intro sum.cong refl)
    fix b i j :: nat
    assume "b \<in> {..<2}" "i \<in> {..<20}" "j \<in> {..<20}"
    then have b: "b < 2" and i: "i < 20" and j: "j < 20" by simp_all
    have z: "contact_map scenario_batch ! b ! i ! j = 0"
      using b i j by (simp add: scenario_batch_def)
    have x: "contact_prob scenario_outputs ! b ! i ! j ! 0 = 0"
      using b i j by (simp add: scenario_outputs_def)
    show "?ce b i j * of_bool (m ! b ! i ! j) = ln 2 * of_bool (m ! b ! i ! j)"
      unfolding z x using ln_half by simp
  qed
  also have "\<dots> = ln 2 * (\<Sum>b<2::nat. \<Sum>i<20::nat. \<Sum>j<20::nat. of_bool (m ! b ! i ! j))"
    by (simp only: sum_distrib_left)
  finally have "(\<Sum>b<2::nat. \<Sum>i<20::nat. \<Sum>j<20::nat. ?ce b i j * of_bool (m ! b ! i ! j)) =
      ln 2 * 230"
    by (simp only: total)
  with quotient have val: "loss = ln 2" by simp
  show ?thesis
  proof (intro exI conjI)
    show "well_shaped scenario_batch scenario_outputs" by (rule scenario_well_shaped)
    show "in_int32 (min_residue_distance ?self)" by (rule default_distance)
    show "selectable scenario_batch" by (rule scenario_selectable)
    show "get_mask ?self scenario_batch = Inr m" by (rule m)
    show "loss_function ?self scenario_batch scenario_outputs = Inr (loss, metrics)" by (rule lf)
    show "(\<Sum>b<2::nat. \<Sum>i<20::nat. \<Sum>j<20::nat. of_bool (m ! b ! i ! j)) = (230 :: real)"
      by (rule total)
    show "loss =
      (\<Sum>b<2::nat. \<Sum>i<20::nat. \<Sum>j<20::nat. ?ce b i j * of_bool (m ! b ! i ! j)) / 230"
      by (rule quotient)
    show "loss = ln 2" by (rule val)
  qed
qed

section \<open>The default distance\<close>









lemma selectable_set_label [simp]: "selectable (set_label inp b i j z) = selectable inp"
  by (simp add: selectable_def l_over_5_def set_label_def)

lemma flat_mask_set_label [simp]: "flat_mask self (set_label inp b i j z) = flat_mask self inp"
  by (simp add: flat_mask_def set_label_def)

lemma selected_set_label [simp]:
  "selected self (set_label inp b i j z) out = selected self inp out"
  by (simp add: selected_def l_over_5_def) (simp add: set_label_def)


















end
